theory Spec2Isabelle
  imports Complex_Main "HOL-Library.AList" "HOL-Library.Log_Nat" "HOL-Library.Code_Target_Numeral"
begin

section \<open>The offer bandit of \<^verbatim>\<open>src/lib/q-learning-bandit.ts\<close>\<close>

text \<open>
  The class \<^verbatim>\<open>QLearningBandit\<close> is embedded method by method. Conventions:
  \<^item> a JavaScript \<^verbatim>\<open>number\<close> is a finite value, \<open>+Infinity\<close>, \<open>-Infinity\<close> or \<open>NaN\<close>,
    with the arithmetic, the comparisons and \<^verbatim>\<open>Math.max\<close>, \<^verbatim>\<open>Math.min\<close> of IEEE 754 on
    the special values. A finite result of magnitude above \<open>2^53\<close> is rounded to the
    nearest double (ties to even) or overflows to an infinity; a result of magnitude at
    most \<open>2^53\<close> is kept exact, which is what binary64 does for an integer and an
    idealisation for a fraction. The two zeros are one;
  \<^item> an object used as a dictionary (\<^verbatim>\<open>Record<string, number>\<close>) is the association
    list of its own properties in insertion order, under an unmodified
    \<^verbatim>\<open>Object.prototype\<close>: a read of a key that is not an own property gives the
    inherited member when the prototype has that name and \<^verbatim>\<open>undefined\<close> otherwise, and
    an assignment to \<^verbatim>\<open>__proto__\<close> that is not an own property runs the inherited
    setter, which ignores a number;
  \<^item> \<^verbatim>\<open>new Date()\<close> and \<^verbatim>\<open>Math.random()\<close> are inputs of the operation that calls them;
  \<^item> an operation that can throw, or that the specification forbids to, returns
    \<open>error + result\<close>; \<^verbatim>\<open>console.warn\<close> is the list of messages returned with the state.
\<close>

subsection \<open>Numbers\<close>

type_synonym date = int

datatype jsnum = Num real | PInf | NInf | NaN

datatype error = TypeError

text \<open>
  The double nearest to a real of magnitude above \<open>2^53\<close>: with \<open>e\<close> the bit length
  of the integer part, the doubles of that binade are the multiples of \<open>2^(e - 53)\<close>.
\<close>

definition js_round :: "real \<Rightarrow> jsnum" where
  "js_round x =
     (if \<bar>x\<bar> \<le> 2 ^ 53 then Num x
      else
        (let a = \<bar>x\<bar>;
             e = floorlog 2 (nat \<lfloor>a\<rfloor>);
             u = 2 ^ (e - 53);
             q = \<lfloor>a / u\<rfloor>;
             f = a / u - of_int q;
             m = (if f < 1 / 2 then q
                  else if 1 / 2 < f then q + 1
                  else if even q then q else q + 1);
             r = of_int m * u
         in if 2 ^ 1024 \<le> r then (if 0 < x then PInf else NInf)
            else Num (if 0 < x then r else - r)))"

fun js_neg :: "jsnum \<Rightarrow> jsnum" where
  "js_neg (Num a) = Num (- a)"
| "js_neg PInf = NInf"
| "js_neg NInf = PInf"
| "js_neg NaN = NaN"

text \<open>\<^verbatim>\<open>a + b\<close>: \<open>NaN\<close> is absorbing and the two infinities have no sum.\<close>

fun js_add :: "jsnum \<Rightarrow> jsnum \<Rightarrow> jsnum" where
  "js_add NaN _ = NaN"
| "js_add _ NaN = NaN"
| "js_add (Num a) (Num b) = js_round (a + b)"
| "js_add PInf NInf = NaN"
| "js_add NInf PInf = NaN"
| "js_add PInf _ = PInf"
| "js_add _ PInf = PInf"
| "js_add NInf _ = NInf"
| "js_add _ NInf = NInf"

definition js_sub :: "jsnum \<Rightarrow> jsnum \<Rightarrow> jsnum" where
  "js_sub a b = js_add a (js_neg b)"

fun js_sign :: "jsnum \<Rightarrow> int" where
  "js_sign (Num a) = (if 0 < a then 1 else if a < 0 then - 1 else 0)"
| "js_sign PInf = 1"
| "js_sign NInf = - 1"
| "js_sign NaN = 0"

text \<open>\<^verbatim>\<open>a * b\<close>: an infinity times zero is \<open>NaN\<close>.\<close>

fun js_mul :: "jsnum \<Rightarrow> jsnum \<Rightarrow> jsnum" where
  "js_mul NaN _ = NaN"
| "js_mul _ NaN = NaN"
| "js_mul (Num a) (Num b) = js_round (a * b)"
| "js_mul x y =
     (let s = js_sign x * js_sign y in
      if s = 0 then NaN else if 0 < s then PInf else NInf)"

text \<open>\<^verbatim>\<open>a / b\<close>; a zero divisor counts as \<open>+0\<close>.\<close>

fun js_div :: "jsnum \<Rightarrow> jsnum \<Rightarrow> jsnum" where
  "js_div NaN _ = NaN"
| "js_div _ NaN = NaN"
| "js_div (Num a) (Num b) =
     (if b = 0 then (if a = 0 then NaN else if 0 < a then PInf else NInf)
      else js_round (a / b))"
| "js_div (Num a) _ = Num 0"
| "js_div x (Num b) = (if (0 \<le> b) = (x = PInf) then PInf else NInf)"
| "js_div _ _ = NaN"

text \<open>\<^verbatim>\<open>a < b\<close> and \<^verbatim>\<open>a > b\<close>: every comparison with \<open>NaN\<close> is false.\<close>

fun js_lt :: "jsnum \<Rightarrow> jsnum \<Rightarrow> bool" where
  "js_lt (Num a) (Num b) = (a < b)"
| "js_lt NInf (Num _) = True"
| "js_lt NInf PInf = True"
| "js_lt (Num _) PInf = True"
| "js_lt _ _ = False"

definition js_gt :: "jsnum \<Rightarrow> jsnum \<Rightarrow> bool" where
  "js_gt a b = js_lt b a"

text \<open>\<^verbatim>\<open>Math.max\<close> and \<^verbatim>\<open>Math.min\<close> return \<open>NaN\<close> when an argument is \<open>NaN\<close>.\<close>

definition js_max :: "jsnum \<Rightarrow> jsnum \<Rightarrow> jsnum" where
  "js_max a b = (if a = NaN \<or> b = NaN then NaN else if js_lt a b then b else a)"

definition js_min :: "jsnum \<Rightarrow> jsnum \<Rightarrow> jsnum" where
  "js_min a b = (if a = NaN \<or> b = NaN then NaN else if js_lt b a then b else a)"

subsection \<open>Objects as dictionaries, arrays\<close>

text \<open>The property names of \<^verbatim>\<open>Object.prototype\<close>.\<close>

definition prototype_names :: "string list" where
  "prototype_names =
     [''constructor'', ''hasOwnProperty'', ''isPrototypeOf'', ''propertyIsEnumerable'',
      ''toLocaleString'', ''toString'', ''valueOf'', ''__proto__'',
      ''__defineGetter__'', ''__defineSetter__'', ''__lookupGetter__'', ''__lookupSetter__'']"

text \<open>
  What \<^verbatim>\<open>obj[k]\<close> reads: the own property, else the inherited member (a function, or
  the prototype itself for \<^verbatim>\<open>__proto__\<close>), else \<^verbatim>\<open>undefined\<close>.
\<close>

datatype jsval = Undefined | Number jsnum | Inherited string

definition js_get :: "(string \<times> jsnum) list \<Rightarrow> string \<Rightarrow> jsval" where
  "js_get obj k =
     (case map_of obj k of
        Some v \<Rightarrow> Number v
      | None \<Rightarrow> if k \<in> set prototype_names then Inherited k else Undefined)"

text \<open>A value in a numeric context: \<^verbatim>\<open>undefined\<close>, a function and an object are \<open>NaN\<close>.\<close>

fun to_number :: "jsval \<Rightarrow> jsnum" where
  "to_number (Number v) = v"
| "to_number Undefined = NaN"
| "to_number (Inherited _) = NaN"

text \<open>
  What \<^verbatim>\<open>obj[k] = v\<close> does for a number \<open>v\<close>: it writes the own property, creating it
  when absent, but for \<^verbatim>\<open>__proto__\<close> that is not an own property it changes nothing.
\<close>

definition js_set :: "string \<Rightarrow> jsnum \<Rightarrow> (string \<times> jsnum) list \<Rightarrow> (string \<times> jsnum) list" where
  "js_set k v obj =
     (if k = ''__proto__'' \<and> map_of obj k = None then obj else AList.update k v obj)"

text \<open>
  \<^verbatim>\<open>Object.keys\<close> lists the own keys that are array indices (canonical decimal
  numerals below \<open>2^32 - 1\<close>) in ascending numeric order, then the other keys in
  insertion order.
\<close>

definition is_digit :: "char \<Rightarrow> bool" where
  "is_digit c = (48 \<le> (of_char c :: int) \<and> (of_char c :: int) \<le> 57)"

definition index_value :: "string \<Rightarrow> int" where
  "index_value s = foldl (\<lambda>n c. 10 * n + (of_char c - 48)) 0 s"

definition is_array_index :: "string \<Rightarrow> bool" where
  "is_array_index s =
     (case s of
        [] \<Rightarrow> False
      | c # cs \<Rightarrow>
          list_all is_digit s \<and> (if c = CHR ''0'' then cs = [] else True) \<and>
          index_value s < 2 ^ 32 - 1)"

definition object_keys :: "(string \<times> 'v) list \<Rightarrow> string list" where
  "object_keys al =
     (let ks = map fst al in
      sort_key index_value (filter is_array_index ks) @
      filter (\<lambda>k. \<not> is_array_index k) ks)"

text \<open>\<^verbatim>\<open>Object.values\<close> lists the values of the own properties in the order of the keys.\<close>

definition object_values :: "(string \<times> jsnum) list \<Rightarrow> jsnum list" where
  "object_values al = map (\<lambda>k. to_number (js_get al k)) (object_keys al)"

text \<open>\<^verbatim>\<open>xs[i]\<close> on an array: \<^verbatim>\<open>undefined\<close> outside the array, never an exception.\<close>

definition array_get :: "'a list \<Rightarrow> int \<Rightarrow> 'a option" where
  "array_get xs i = (if 0 \<le> i \<and> i < int (length xs) then Some (xs ! nat i) else None)"

subsection \<open>Data model\<close>

datatype offer_type = Discount | Pause | Swap | Extension

record Offer =
  id_offer :: string
  type_offer :: offer_type
  value_offer :: jsnum
  cost :: jsnum
  description :: string

datatype user_response = Accepted | Declined | Ignored

text \<open>
  \<^verbatim>\<open>BanditState\<close> is the snapshot interface: four fields, no exploration rate. The class
  has the same four fields and four more, so its record extends the snapshot's.
\<close>

record BanditState =
  qValues :: "(string \<times> jsnum) list"
  actionCounts :: "(string \<times> jsnum) list"
  totalReward :: jsnum
  lastUpdated :: date

record QLearningBandit = BanditState +
  arms :: "Offer list"
  alpha :: jsnum
  gamma :: jsnum
  epsilon :: jsnum

record ArmPerformance =
  id_arm :: string
  type_arm :: offer_type
  qValue :: jsval
  count :: jsval
  avgReward_arm :: jsnum

record Metrics =
  totalActions :: jsnum
  avgReward :: jsnum
  explorationRate :: jsnum
  armPerformance :: "ArmPerformance list"
  lastUpdated_metrics :: date

subsection \<open>Constructor\<close>

text \<open>A default parameter value applies when the argument is omitted (\<open>None\<close>).\<close>

definition default_arg :: "'a \<Rightarrow> 'a option \<Rightarrow> 'a" where
  "default_arg d x = (case x of None \<Rightarrow> d | Some v \<Rightarrow> v)"

text \<open>The \<^verbatim>\<open>forEach\<close> of the constructor, on the pair of the two dictionaries.\<close>

fun init_arms ::
  "Offer list \<Rightarrow> (string \<times> jsnum) list \<times> (string \<times> jsnum) list \<Rightarrow>
     (string \<times> jsnum) list \<times> (string \<times> jsnum) list" where
  "init_arms [] s = s"
| "init_arms (arm # rest) (q, c) =
     init_arms rest (js_set (id_offer arm) (Num 0) q, js_set (id_offer arm) (Num 0) c)"

text \<open>The constructor has no check and no \<^verbatim>\<open>throw\<close>: it returns an instance for every input.\<close>

definition constructor ::
  "Offer list \<Rightarrow> jsnum option \<Rightarrow> jsnum option \<Rightarrow> jsnum option \<Rightarrow> date \<Rightarrow>
     error + QLearningBandit" where
  "constructor arms0 alpha0 gamma0 epsilon0 now =
     (let (q, c) = init_arms arms0 ([], []) in
      Inr \<lparr> qValues = q, actionCounts = c, totalReward = Num 0, lastUpdated = now,
            arms = arms0,
            alpha = default_arg (Num 0.1) alpha0,
            gamma = default_arg (Num 0.9) gamma0,
            epsilon = default_arg (Num 0.1) epsilon0 \<rparr>)"

subsection \<open>update\<close>

text \<open>
  \<^verbatim>\<open>this.qValues.hasOwnProperty(actionId)\<close> looks the method up on the dictionary: an
  own property of that name is a number, and calling it throws before anything is
  changed. Otherwise the inherited method answers whether \<open>actionId\<close> is an own key of
  \<^verbatim>\<open>qValues\<close>; the count is read and incremented whether or not \<^verbatim>\<open>actionCounts\<close> has
  the key.
\<close>

definition update ::
  "QLearningBandit \<Rightarrow> string \<Rightarrow> jsnum \<Rightarrow> date \<Rightarrow> error + (QLearningBandit \<times> string list)" where
  "update b actionId reward now =
     (case map_of (qValues b) ''hasOwnProperty'' of
        Some _ \<Rightarrow> Inl TypeError
      | None \<Rightarrow>
          (case map_of (qValues b) actionId of
             None \<Rightarrow> Inr (b, [''Unknown action ID: '' @ actionId])
           | Some oldQ \<Rightarrow>
               (let newQ = js_add oldQ (js_mul (alpha b) (js_sub reward oldQ)) in
                Inr (b \<lparr> qValues := js_set actionId newQ (qValues b),
                         actionCounts :=
                           js_set actionId
                             (js_add (to_number (js_get (actionCounts b) actionId)) (Num 1))
                             (actionCounts b),
                         totalReward := js_add (totalReward b) reward,
                         lastUpdated := now \<rparr>, []))))"

text \<open>
  A finite sequence of \<^verbatim>\<open>update\<close> calls, each with its arm, reward and clock. A call
  that throws has changed nothing, and a caller that catches the exception, as the request
  handler does, goes on with the same instance.
\<close>

fun run_updates :: "QLearningBandit \<Rightarrow> (string \<times> jsnum \<times> date) list \<Rightarrow> QLearningBandit" where
  "run_updates b [] = b"
| "run_updates b ((actionId, reward, now) # rest) =
     (case update b actionId reward now of
        Inl e \<Rightarrow> run_updates b rest
      | Inr (b', _) \<Rightarrow> run_updates b' rest)"

subsection \<open>calculateReward\<close>

definition calculateReward ::
  "QLearningBandit \<Rightarrow> string \<Rightarrow> user_response \<Rightarrow> jsnum \<Rightarrow> jsnum \<Rightarrow> jsnum" where
  "calculateReward b actionId userResponse mrrValue offerCost =
     (case find (\<lambda>arm. id_offer arm = actionId) (arms b) of
        None \<Rightarrow> Num 0
      | Some action \<Rightarrow>
          (let baseReward =
                 (case userResponse of
                    Accepted \<Rightarrow> js_mul mrrValue (js_sub (Num 1) (cost action))
                  | Declined \<Rightarrow> Num (- 0.1)
                  | Ignored \<Rightarrow> Num 0);
               costAdjustedReward = js_sub baseReward (js_mul offerCost (Num 0.1))
           in js_max (Num (- 1)) (js_min (Num 1) costAdjustedReward)))"

subsection \<open>getState, loadState\<close>

definition getState :: "QLearningBandit \<Rightarrow> BanditState" where
  "getState b =
     \<lparr> qValues = qValues b, actionCounts = actionCounts b,
       totalReward = totalReward b, lastUpdated = lastUpdated b \<rparr>"

definition loadState :: "QLearningBandit \<Rightarrow> BanditState \<Rightarrow> QLearningBandit" where
  "loadState b state =
     b \<lparr> qValues := qValues state, actionCounts := actionCounts state,
         totalReward := totalReward state, lastUpdated := lastUpdated state \<rparr>"

subsection \<open>getMetrics\<close>

definition arm_performance :: "QLearningBandit \<Rightarrow> Offer \<Rightarrow> ArmPerformance" where
  "arm_performance b arm =
     \<lparr> id_arm = id_offer arm,
       type_arm = type_offer arm,
       qValue = js_get (qValues b) (id_offer arm),
       count = js_get (actionCounts b) (id_offer arm),
       avgReward_arm =
         (if js_gt (to_number (js_get (actionCounts b) (id_offer arm))) (Num 0)
          then js_div (to_number (js_get (qValues b) (id_offer arm)))
                 (to_number (js_get (actionCounts b) (id_offer arm)))
          else Num 0) \<rparr>"

definition getMetrics :: "QLearningBandit \<Rightarrow> Metrics" where
  "getMetrics b =
     (let total = foldl js_add (Num 0) (object_values (actionCounts b)) in
      \<lparr> totalActions = total,
        avgReward = (if js_gt total (Num 0) then js_div (totalReward b) total else Num 0),
        explorationRate = epsilon b,
        armPerformance = map (arm_performance b) (arms b),
        lastUpdated_metrics = lastUpdated b \<rparr>)"

subsection \<open>decayEpsilon\<close>

definition decayEpsilon :: "QLearningBandit \<Rightarrow> jsnum option \<Rightarrow> QLearningBandit" where
  "decayEpsilon b decayRate0 =
     b \<lparr> epsilon := js_max (Num 0.01) (js_mul (epsilon b) (default_arg (Num 0.99) decayRate0)) \<rparr>"

subsection \<open>selectAction\<close>

text \<open>
  The two calls of \<^verbatim>\<open>Math.random()\<close> are the inputs \<open>u1\<close> and \<open>u2\<close>. The result
  is \<open>None\<close> where the method returns \<^verbatim>\<open>undefined\<close>; \<^verbatim>\<open>reduce\<close> without an initial
  value throws a \<^verbatim>\<open>TypeError\<close> on an empty array.
\<close>

definition better :: "(string \<times> jsnum) list \<Rightarrow> string \<Rightarrow> string \<Rightarrow> string" where
  "better q a b = (if js_gt (to_number (js_get q a)) (to_number (js_get q b)) then a else b)"

definition selectAction :: "QLearningBandit \<Rightarrow> real \<Rightarrow> real \<Rightarrow> error + Offer option" where
  "selectAction b u1 u2 =
     (if js_lt (Num u1) (epsilon b) then
        (let randomIndex = \<lfloor>u2 * real (length (arms b))\<rfloor> in
         Inr (array_get (arms b) randomIndex))
      else
        (case object_keys (qValues b) of
           [] \<Rightarrow> Inl TypeError
         | k # ks \<Rightarrow>
             (let bestArmId = foldl (better (qValues b)) k ks in
              Inr (case find (\<lambda>arm. id_offer arm = bestArmId) (arms b) of
                     Some arm \<Rightarrow> Some arm
                   | None \<Rightarrow> array_get (arms b) 0))))"

subsection \<open>Ranges of numbers\<close>

text \<open>
  \<open>in_range lo hi v\<close>: \<open>v\<close> is a finite number between \<open>lo\<close> and \<open>hi\<close>;
  \<open>not_below lo v\<close>: \<open>v\<close> is \<open>+Infinity\<close> or a finite number not below \<open>lo\<close>;
  \<open>not_above hi v\<close>: \<open>v\<close> is a finite number not above \<open>hi\<close>;
  \<open>nonzero v\<close>: \<open>v\<close> is a finite number other than zero. \<open>NaN\<close> is in no range.
\<close>

definition in_range :: "real \<Rightarrow> real \<Rightarrow> jsnum \<Rightarrow> bool" where
  "in_range lo hi v = (case v of Num r \<Rightarrow> lo \<le> r \<and> r \<le> hi | _ \<Rightarrow> False)"

definition not_below :: "real \<Rightarrow> jsnum \<Rightarrow> bool" where
  "not_below lo v = (case v of Num r \<Rightarrow> lo \<le> r | PInf \<Rightarrow> True | _ \<Rightarrow> False)"

definition not_above :: "real \<Rightarrow> jsnum \<Rightarrow> bool" where
  "not_above hi v = (case v of Num r \<Rightarrow> r \<le> hi | _ \<Rightarrow> False)"

definition nonzero :: "jsnum \<Rightarrow> bool" where
  "nonzero v = (case v of Num r \<Rightarrow> r \<noteq> 0 | _ \<Rightarrow> False)"

subsection \<open>Configurations\<close>

text \<open>\<^verbatim>\<open>DEFAULT_OFFERS\<close>, the arm list of the module-level instance of the request handler.\<close>

definition DEFAULT_OFFERS :: "Offer list" where
  "DEFAULT_OFFERS =
     [ \<lparr> id_offer = ''discount_10'', type_offer = Discount, value_offer = Num 10,
         cost = Num 0.1, description = ''10% discount for 3 months'' \<rparr>,
       \<lparr> id_offer = ''discount_20'', type_offer = Discount, value_offer = Num 20,
         cost = Num 0.2, description = ''20% discount for 2 months'' \<rparr>,
       \<lparr> id_offer = ''pause_30'', type_offer = Pause, value_offer = Num 30,
         cost = Num 0.05, description = ''Pause subscription for 30 days'' \<rparr>,
       \<lparr> id_offer = ''pause_60'', type_offer = Pause, value_offer = Num 60,
         cost = Num 0.1, description = ''Pause subscription for 60 days'' \<rparr>,
       \<lparr> id_offer = ''extension_14'', type_offer = Extension, value_offer = Num 14,
         cost = Num 0.02, description = ''14-day free extension'' \<rparr>,
       \<lparr> id_offer = ''swap_plan'', type_offer = Swap, value_offer = Num 0,
         cost = Num 0.15, description = ''Downgrade to lower plan'' \<rparr> ]"

text \<open>
  An arm with a given id and cost, and the instance with the one arm \<open>A\<close> of cost
  \<open>c\<close> as the constructor builds it at time \<open>0\<close> with default parameters.
\<close>

definition arm :: "string \<Rightarrow> jsnum \<Rightarrow> Offer" where
  "arm name c = \<lparr> id_offer = name, type_offer = Discount, value_offer = Num 10, cost = c,
                  description = ''an offer'' \<rparr>"

definition bandit_A :: "real \<Rightarrow> QLearningBandit" where
  "bandit_A c =
     \<lparr> qValues = [(''A'', Num 0)], actionCounts = [(''A'', Num 0)], totalReward = Num 0,
       lastUpdated = 0, arms = [arm ''A'' (Num c)], alpha = Num 0.1, gamma = Num 0.9,
       epsilon = Num 0.1 \<rparr>"

text \<open>
  An instance with two arms after some updates: estimates \<open>0.5\<close> and \<open>0.25\<close>, counts
  \<open>3\<close> and \<open>7\<close>, learning rate \<open>0.5\<close>.
\<close>

definition bandit_AB :: QLearningBandit where
  "bandit_AB =
     \<lparr> qValues = [(''A'', Num 0.5), (''B'', Num 0.25)],
       actionCounts = [(''A'', Num 3), (''B'', Num 7)], totalReward = Num 2,
       lastUpdated = 4, arms = [arm ''A'' (Num 0.1), arm ''B'' (Num 0.5)],
       alpha = Num 0.5, gamma = Num 0.9, epsilon = Num 0.1 \<rparr>"

text \<open>A snapshot taken from an instance whose only arm is \<open>Z\<close>.\<close>

definition snapshot_Z :: BanditState where
  "snapshot_Z =
     \<lparr> qValues = [(''Z'', Num 0)], actionCounts = [(''Z'', Num 0)], totalReward = Num 0,
       lastUpdated = 0 \<rparr>"

text \<open>
  A snapshot in which the count of \<open>A\<close> has reached \<open>2^53\<close>, and the instances that
  the constructor builds, at time \<open>0\<close> with default parameters, from one arm named
  \<^verbatim>\<open>hasOwnProperty\<close> and from one arm named \<^verbatim>\<open>__proto__\<close>.
\<close>

definition snapshot_full :: BanditState where
  "snapshot_full =
     \<lparr> qValues = [(''A'', Num 0)], actionCounts = [(''A'', Num (2 ^ 53))],
       totalReward = Num 0, lastUpdated = 0 \<rparr>"

definition bandit_shadowed :: QLearningBandit where
  "bandit_shadowed =
     \<lparr> qValues = [(''hasOwnProperty'', Num 0)], actionCounts = [(''hasOwnProperty'', Num 0)],
       totalReward = Num 0, lastUpdated = 0, arms = [arm ''hasOwnProperty'' (Num 0.1)],
       alpha = Num 0.1, gamma = Num 0.9, epsilon = Num 0.1 \<rparr>"

definition bandit_proto :: QLearningBandit where
  "bandit_proto =
     \<lparr> qValues = [], actionCounts = [], totalReward = Num 0, lastUpdated = 0,
       arms = [arm ''__proto__'' (Num 0.1)],
       alpha = Num 0.1, gamma = Num 0.9, epsilon = Num 0.1 \<rparr>"

section \<open>Properties\<close>

subsection \<open>Numbers\<close>

text \<open>
  Rounding is the identity up to \<open>2^53\<close> and never gives \<open>NaN\<close>; a count below
  \<open>2^53\<close> is incremented exactly, and the count \<open>2^53\<close> is not incremented at all:
  \<open>2^53 + 1\<close> lies half-way between two doubles and rounds to the even one.
\<close>

lemma js_round_small: "\<bar>x\<bar> \<le> 2 ^ 53 \<Longrightarrow> js_round x = Num x"
  by (simp add: js_round_def)

lemma js_round_not_NaN: "js_round x \<noteq> NaN"
  by (simp add: js_round_def Let_def)

lemma js_round_cases: "(\<exists>r. js_round x = Num r) \<or> js_round x = PInf \<or> js_round x = NInf"
  by (cases "js_round x") (simp_all add: js_round_not_NaN)

lemma js_round_negative:
  assumes "x < 0"
  shows "js_round x = NInf \<or> (\<exists>r. js_round x = Num r \<and> r \<le> 0)"
proof (cases "\<bar>x\<bar> \<le> 2 ^ 53")
  case True
  with assms show ?thesis
    by (simp add: js_round_small)
next
  case False
  define u :: real where "u = 2 ^ (floorlog 2 (nat \<lfloor>\<bar>x\<bar>\<rfloor>) - 53)"
  define q where "q = \<lfloor>\<bar>x\<bar> / u\<rfloor>"
  define m where "m = (if \<bar>x\<bar> / u - of_int q < 1 / 2 then q
                  else if 1 / 2 < \<bar>x\<bar> / u - of_int q then q + 1
                  else if even q then q else q + 1)"
  have upos: "0 < u"
    by (simp add: u_def)
  then have "0 \<le> \<bar>x\<bar> / u"
    by simp
  then have "0 \<le> q"
    by (simp add: q_def)
  then have "0 \<le> m"
    by (simp add: m_def)
  with upos have "0 \<le> of_int m * u"
    by simp
  moreover have "js_round x = (if 2 ^ 1024 \<le> of_int m * u then NInf else Num (- (of_int m * u)))"
    using False assms by (simp add: js_round_def Let_def u_def q_def m_def)
  ultimately show ?thesis
    by auto
qed

lemma js_add_Num: "\<bar>a + b\<bar> \<le> 2 ^ 53 \<Longrightarrow> js_add (Num a) (Num b) = Num (a + b)"
  by (simp add: js_round_small)

lemma js_add_count:
  assumes "n < 2 ^ 53"
  shows "js_add (Num (real n)) (Num 1) = Num (real (n + 1))"
proof -
  from assms have "n + 1 \<le> 2 ^ 53"
    by simp
  then have "real (n + 1) \<le> real (2 ^ 53)"
    by (simp only: of_nat_le_iff)
  then have "\<bar>real n + 1\<bar> \<le> 2 ^ 53"
    by simp
  then show ?thesis
    by (simp add: js_round_small)
qed

lemma floorlog_two_53: "floorlog 2 9007199254740993 = 54"
proof -
  have "floorlog 2 9007199254740993 \<le> 54"
    by (rule floorlog_leI) simp_all
  moreover have "54 \<le> floorlog 2 9007199254740993"
    by (rule floorlog_geI) simp_all
  ultimately show ?thesis
    by simp
qed

lemma js_add_stalls: "js_add (Num (2 ^ 53)) (Num 1) = Num (2 ^ 53)"
proof -
  have large: "\<not> \<bar>9007199254740993 :: real\<bar> \<le> 2 ^ 53"
    by simp
  have n: "nat \<lfloor>\<bar>9007199254740993 :: real\<bar>\<rfloor> = 9007199254740993"
    by simp
  have u: "(2 :: real) ^ (54 - 53) = 2"
    by simp
  have q: "\<lfloor>\<bar>9007199254740993 :: real\<bar> / 2\<rfloor> = 4503599627370496"
    by simp
  have "js_round 9007199254740993 = Num 9007199254740992"
    unfolding js_round_def Let_def n floorlog_two_53 u q
    by (simp only: large if_False) simp
  then show ?thesis
    by simp
qed

subsection \<open>Dictionaries and the constructor\<close>

text \<open>
  An assignment adds its key to the own keys of a dictionary, except for the key
  \<^verbatim>\<open>__proto__\<close>. So the constructor leaves two dictionaries whose keys are the arm ids
  other than \<^verbatim>\<open>__proto__\<close>, every entry being \<open>0\<close>.
\<close>

lemma map_of_key: "k \<in> fst ` set al \<Longrightarrow> \<exists>v. map_of al k = Some v"
  by (induction al) auto

lemma key_of_map_of: "map_of al k = Some v \<Longrightarrow> k \<in> fst ` set al"
  by (induction al) (auto split: if_splits)

lemma keys_js_set:
  "fst ` set (js_set k v al) = fst ` set al \<union> ({k} - {''__proto__''})"
proof (cases "k = ''__proto__''")
  case proto: True
  have rhs: "fst ` set al \<union> ({k} - {''__proto__''}) = fst ` set al"
    using proto by auto
  show ?thesis
  proof (cases "map_of al k")
    case None
    then have "js_set k v al = al"
      using proto by (auto simp: js_set_def)
    then show ?thesis
      by (simp only: rhs)
  next
    case (Some w)
    then have "k \<in> fst ` set al"
      by (rule key_of_map_of)
    then have "insert k (fst ` set al) = fst ` set al"
      by (rule insert_absorb)
    moreover have "js_set k v al = AList.update k v al"
      using Some by (auto simp: js_set_def)
    moreover have "fst ` set (AList.update k v al) = insert k (fst ` set al)"
      using AList.dom_update [of k v al] by simp
    ultimately show ?thesis
      by (simp only: rhs)
  qed
next
  case other: False
  then have "js_set k v al = AList.update k v al"
    by (auto simp: js_set_def)
  moreover have "fst ` set (AList.update k v al) = insert k (fst ` set al)"
    using AList.dom_update [of k v al] by simp
  moreover have "fst ` set al \<union> ({k} - {''__proto__''}) = insert k (fst ` set al)"
    using other by auto
  ultimately show ?thesis
    by (simp only:)
qed

lemma js_set_own: "map_of al k = Some w \<Longrightarrow> js_set k v al = AList.update k v al"
  by (simp add: js_set_def)

lemma keys_js_set_own:
  assumes "k \<in> fst ` set al"
  shows "fst ` set (js_set k v al) = fst ` set al"
  using assms by (auto simp: keys_js_set)

lemma init_arms_keys:
  "init_arms as (q, c) = (q', c') \<Longrightarrow>
     fst ` set q' = fst ` set q \<union> (id_offer ` set as - {''__proto__''}) \<and>
     fst ` set c' = fst ` set c \<union> (id_offer ` set as - {''__proto__''})"
proof (induction as arbitrary: q c)
  case Nil
  then show ?case by simp
next
  case (Cons a rest)
  from Cons.prems have
    "init_arms rest (js_set (id_offer a) (Num 0) q, js_set (id_offer a) (Num 0) c) = (q', c')"
    by simp
  from Cons.IH [OF this] show ?case
    by (auto simp: keys_js_set)
qed

lemma map_of_js_set_zero:
  assumes "\<forall>k v. map_of al k = Some v \<longrightarrow> v = Num 0"
  shows "\<forall>k v. map_of (js_set j (Num 0) al) k = Some v \<longrightarrow> v = Num 0"
  using assms by (auto simp: js_set_def AList.update_conv' split: if_splits)

lemma init_arms_zero:
  "init_arms as (q, c) = (q', c') \<Longrightarrow>
     \<forall>k v. map_of q k = Some v \<longrightarrow> v = Num 0 \<Longrightarrow>
     \<forall>k v. map_of c k = Some v \<longrightarrow> v = Num 0 \<Longrightarrow>
     (\<forall>k v. map_of q' k = Some v \<longrightarrow> v = Num 0) \<and> (\<forall>k v. map_of c' k = Some v \<longrightarrow> v = Num 0)"
proof (induction as arbitrary: q c)
  case Nil
  then show ?case by simp
next
  case (Cons a rest)
  from Cons.prems(1) have step:
    "init_arms rest (js_set (id_offer a) (Num 0) q, js_set (id_offer a) (Num 0) c) = (q', c')"
    by simp
  show ?case
    by (rule Cons.IH [OF step map_of_js_set_zero [OF Cons.prems(2)] map_of_js_set_zero [OF Cons.prems(3)]])
qed

lemma constructor_result:
  "\<exists>b. constructor arms0 alpha0 gamma0 epsilon0 now = Inr b \<and> arms b = arms0 \<and>
       fst ` set (qValues b) = id_offer ` set arms0 - {''__proto__''} \<and>
       fst ` set (actionCounts b) = id_offer ` set arms0 - {''__proto__''} \<and>
       (\<forall>k v. map_of (qValues b) k = Some v \<longrightarrow> v = Num 0) \<and>
       (\<forall>k v. map_of (actionCounts b) k = Some v \<longrightarrow> v = Num 0) \<and>
       alpha b = default_arg (Num 0.1) alpha0 \<and> gamma b = default_arg (Num 0.9) gamma0 \<and>
       epsilon b = default_arg (Num 0.1) epsilon0 \<and> totalReward b = Num 0 \<and> lastUpdated b = now"
proof -
  obtain q c where qc: "init_arms arms0 ([], []) = (q, c)"
    by (cases "init_arms arms0 ([], [])") simp
  from init_arms_keys [OF qc] have keys:
    "fst ` set q = id_offer ` set arms0 - {''__proto__''}"
    "fst ` set c = id_offer ` set arms0 - {''__proto__''}"
    by simp_all
  from init_arms_zero [OF qc] have zero:
    "\<forall>k v. map_of q k = Some v \<longrightarrow> v = Num 0" "\<forall>k v. map_of c k = Some v \<longrightarrow> v = Num 0"
    by simp_all
  show ?thesis
    using keys zero by (simp add: constructor_def qc)
qed

text \<open>The instances of the configurations section are what the constructor builds.\<close>

lemma bandit_A_constructed: "constructor [arm ''A'' (Num c)] None None None 0 = Inr (bandit_A c)"
  by (simp add: constructor_def bandit_A_def arm_def default_arg_def js_set_def)

lemma bandit_shadowed_constructed:
  "constructor [arm ''hasOwnProperty'' (Num 0.1)] None None None 0 = Inr bandit_shadowed"
  by (simp add: constructor_def bandit_shadowed_def arm_def default_arg_def js_set_def)

lemma bandit_proto_constructed:
  "constructor [arm ''__proto__'' (Num 0.1)] None None None 0 = Inr bandit_proto"
  by (simp add: constructor_def bandit_proto_def arm_def default_arg_def js_set_def)

subsection \<open>The three outcomes of update\<close>

text \<open>
  \<^verbatim>\<open>update\<close> throws, or warns and changes nothing, or rewrites the entries of one key
  that both dictionaries have. Hence a sequence of calls that starts from a constructed
  instance keeps the key sets, keeps the arm list, and keeps every count a natural
  number bounded by the number of calls.
\<close>

lemma update_throws:
  assumes "map_of (qValues b) ''hasOwnProperty'' = Some v"
  shows "update b actionId reward now = Inl TypeError"
  using assms by (simp add: update_def)

lemma update_unknown:
  assumes "map_of (qValues b) ''hasOwnProperty'' = None" and "map_of (qValues b) actionId = None"
  shows "update b actionId reward now = Inr (b, [''Unknown action ID: '' @ actionId])"
  using assms by (simp add: update_def)

lemma update_known:
  assumes "map_of (qValues b) ''hasOwnProperty'' = None" and "map_of (qValues b) actionId = Some oldQ"
  shows "update b actionId reward now =
    Inr (b \<lparr> qValues := js_set actionId (js_add oldQ (js_mul (alpha b) (js_sub reward oldQ))) (qValues b),
             actionCounts := js_set actionId
                (js_add (to_number (js_get (actionCounts b) actionId)) (Num 1)) (actionCounts b),
             totalReward := js_add (totalReward b) reward,
             lastUpdated := now \<rparr>, [])"
  using assms by (simp add: update_def)

lemma update_cases:
  "update b actionId reward now = Inl TypeError \<or>
   update b actionId reward now = Inr (b, [''Unknown action ID: '' @ actionId]) \<or>
   (\<exists>oldQ. map_of (qValues b) actionId = Some oldQ \<and>
      update b actionId reward now =
        Inr (b \<lparr> qValues := js_set actionId (js_add oldQ (js_mul (alpha b) (js_sub reward oldQ))) (qValues b),
             actionCounts := js_set actionId
                (js_add (to_number (js_get (actionCounts b) actionId)) (Num 1)) (actionCounts b),
             totalReward := js_add (totalReward b) reward,
             lastUpdated := now \<rparr>, []))"
  by (simp add: update_def split: option.split)

lemma update_keeps_keys:
  assumes q: "fst ` set (qValues b) = S" and c: "fst ` set (actionCounts b) = S"
    and u: "update b actionId reward now = Inr (b', w)"
  shows "fst ` set (qValues b') = S \<and> fst ` set (actionCounts b') = S \<and> arms b' = arms b"
proof -
  from update_cases [of b actionId reward now] u
  consider (unknown) "b' = b"
    | (known) oldQ where "map_of (qValues b) actionId = Some oldQ"
        "b' = b \<lparr> qValues := js_set actionId (js_add oldQ (js_mul (alpha b) (js_sub reward oldQ))) (qValues b),
             actionCounts := js_set actionId
                (js_add (to_number (js_get (actionCounts b) actionId)) (Num 1)) (actionCounts b),
             totalReward := js_add (totalReward b) reward,
             lastUpdated := now \<rparr>"
    by auto
  then show ?thesis
  proof cases
    case unknown
    with q c show ?thesis by simp
  next
    case known
    from known(1) have "actionId \<in> fst ` set (qValues b)"
      by (rule key_of_map_of)
    with q c have kq: "actionId \<in> fst ` set (qValues b)" and kc: "actionId \<in> fst ` set (actionCounts b)"
      by simp_all
    show ?thesis
      using q c by (simp add: known(2) keys_js_set_own [OF kq] keys_js_set_own [OF kc])
  qed
qed

lemma run_updates_keeps_keys:
  "fst ` set (qValues b) = S \<Longrightarrow> fst ` set (actionCounts b) = S \<Longrightarrow>
     fst ` set (qValues (run_updates b calls)) = S \<and>
     fst ` set (actionCounts (run_updates b calls)) = S \<and>
     arms (run_updates b calls) = arms b"
proof (induction calls arbitrary: b)
  case Nil
  then show ?case by simp
next
  case (Cons call rest)
  obtain actionId reward now where call: "call = (actionId, reward, now)"
    by (cases call) auto
  show ?case
  proof (cases "update b actionId reward now")
    case (Inl e)
    with Cons.IH [OF Cons.prems] show ?thesis
      by (simp add: call)
  next
    case (Inr r)
    obtain b' w where r: "r = (b', w)"
      by (cases r) auto
    from update_keeps_keys [OF Cons.prems Inr [unfolded r]]
    have k: "fst ` set (qValues b') = S" "fst ` set (actionCounts b') = S" "arms b' = arms b"
      by simp_all
    from Cons.IH [OF k(1,2)] k(3) show ?thesis
      by (simp add: call Inr r)
  qed
qed

lemma update_keeps_counts:
  assumes q: "fst ` set (qValues b) = S" and c: "fst ` set (actionCounts b) = S"
    and inv: "\<forall>k v. map_of (actionCounts b) k = Some v \<longrightarrow> (\<exists>n\<le>N. v = Num (real n))"
    and N: "N < 2 ^ 53"
    and u: "update b actionId reward now = Inr (b', w)"
  shows "\<forall>k v. map_of (actionCounts b') k = Some v \<longrightarrow> (\<exists>n\<le>Suc N. v = Num (real n))"
proof -
  from update_cases [of b actionId reward now] u
  consider (unknown) "b' = b"
    | (known) oldQ where "map_of (qValues b) actionId = Some oldQ"
        "b' = b \<lparr> qValues := js_set actionId (js_add oldQ (js_mul (alpha b) (js_sub reward oldQ))) (qValues b),
             actionCounts := js_set actionId
                (js_add (to_number (js_get (actionCounts b) actionId)) (Num 1)) (actionCounts b),
             totalReward := js_add (totalReward b) reward,
             lastUpdated := now \<rparr>"
    by auto
  then show ?thesis
  proof cases
    case unknown
    show ?thesis
    proof (intro allI impI)
      fix k v
      assume "map_of (actionCounts b') k = Some v"
      with unknown inv obtain n where "n \<le> N" "v = Num (real n)"
        by auto
      then have "n \<le> Suc N \<and> v = Num (real n)"
        by simp
      then show "\<exists>n\<le>Suc N. v = Num (real n)"
        by (rule exI)
    qed
  next
    case known
    from known(1) have "actionId \<in> fst ` set (qValues b)"
      by (rule key_of_map_of)
    with q c have kc: "actionId \<in> fst ` set (actionCounts b)"
      by simp
    from map_of_key [OF kc] obtain old where old: "map_of (actionCounts b) actionId = Some old" ..
    with inv obtain n where n: "n \<le> N" "old = Num (real n)"
      by auto
    from n(1) N have "n < 2 ^ 53"
      by simp
    then have incr: "js_add (Num (real n)) (Num 1) = Num (real (n + 1))"
      by (rule js_add_count)
    have get: "to_number (js_get (actionCounts b) actionId) = Num (real n)"
      by (simp add: js_get_def old n(2))
    have val: "js_add (to_number (js_get (actionCounts b) actionId)) (Num 1) = Num (real (n + 1))"
      by (simp only: get incr)
    have "actionCounts b' =
        js_set actionId (js_add (to_number (js_get (actionCounts b) actionId)) (Num 1)) (actionCounts b)"
      by (simp add: known(2))
    then have counts: "actionCounts b' = AList.update actionId (Num (real (n + 1))) (actionCounts b)"
      by (simp only: val js_set_own [OF old])
    show ?thesis
    proof (intro allI impI)
      fix k v
      assume kv: "map_of (actionCounts b') k = Some v"
      show "\<exists>n\<le>Suc N. v = Num (real n)"
      proof (cases "k = actionId")
        case True
        with kv have "v = Num (real (n + 1))"
          by (simp add: counts AList.update_conv')
        moreover have "n + 1 \<le> Suc N"
          using n(1) by simp
        ultimately have "n + 1 \<le> Suc N \<and> v = Num (real (n + 1))"
          by simp
        then show ?thesis
          by (rule exI)
      next
        case False
        with kv have "map_of (actionCounts b) k = Some v"
          by (simp add: counts AList.update_conv')
        with inv obtain m where "m \<le> N" "v = Num (real m)"
          by auto
        then have "m \<le> Suc N \<and> v = Num (real m)"
          by simp
        then show ?thesis
          by (rule exI)
      qed
    qed
  qed
qed

lemma run_updates_keeps_counts:
  "fst ` set (qValues b) = S \<Longrightarrow> fst ` set (actionCounts b) = S \<Longrightarrow>
   \<forall>k v. map_of (actionCounts b) k = Some v \<longrightarrow> (\<exists>n\<le>N. v = Num (real n)) \<Longrightarrow>
   N + length calls \<le> 2 ^ 53 \<Longrightarrow>
   \<forall>k v. map_of (actionCounts (run_updates b calls)) k = Some v \<longrightarrow>
     (\<exists>n\<le>N + length calls. v = Num (real n))"
proof (induction calls arbitrary: b N)
  case Nil
  then show ?case by simp
next
  case (Cons call rest)
  obtain actionId reward now where call: "call = (actionId, reward, now)"
    by (cases call) auto
  from Cons.prems(4) have N: "N < 2 ^ 53" and rest: "Suc N + length rest \<le> 2 ^ 53"
    by simp_all
  have weaker: "\<forall>k v. map_of (actionCounts b) k = Some v \<longrightarrow> (\<exists>n\<le>Suc N. v = Num (real n))"
  proof (intro allI impI)
    fix k v
    assume "map_of (actionCounts b) k = Some v"
    with Cons.prems(3) obtain n where "n \<le> N" "v = Num (real n)"
      by auto
    then have "n \<le> Suc N \<and> v = Num (real n)"
      by simp
    then show "\<exists>n\<le>Suc N. v = Num (real n)"
      by (rule exI)
  qed
  show ?case
  proof (cases "update b actionId reward now")
    case (Inl e)
    from Cons.IH [OF Cons.prems(1,2) weaker rest] show ?thesis
      by (simp add: call Inl)
  next
    case (Inr r)
    obtain b' w where r: "r = (b', w)"
      by (cases r) auto
    note u = Inr [unfolded r]
    from update_keeps_keys [OF Cons.prems(1,2) u]
    have k: "fst ` set (qValues b') = S" "fst ` set (actionCounts b') = S"
      by simp_all
    note inv' = update_keeps_counts [OF Cons.prems(1,2,3) N u]
    from Cons.IH [OF k inv' rest] show ?thesis
      by (simp add: call Inr r)
  qed
qed

lemma constructed_entries:
  assumes b0: "constructor arms0 alpha0 gamma0 epsilon0 t0 = Inr b0"
    and len: "length calls < 2 ^ 53"
    and k: "actionId \<in> id_offer ` set arms0" "actionId \<noteq> ''__proto__''"
  shows "\<exists>oldQ n. map_of (qValues (run_updates b0 calls)) actionId = Some oldQ \<and>
           map_of (actionCounts (run_updates b0 calls)) actionId = Some (Num (real n)) \<and>
           n < 2 ^ 53"
proof -
  define S where "S = id_offer ` set arms0 - {''__proto__''}"
  from constructor_result [of arms0 alpha0 gamma0 epsilon0 t0] b0
  have keys0: "fst ` set (qValues b0) = S" "fst ` set (actionCounts b0) = S"
    and zero: "\<forall>k v. map_of (actionCounts b0) k = Some v \<longrightarrow> v = Num 0"
    by (auto simp: S_def)
  have inv0: "\<forall>k v. map_of (actionCounts b0) k = Some v \<longrightarrow> (\<exists>n\<le>0. v = Num (real n))"
    using zero by auto
  from len have bound: "0 + length calls \<le> 2 ^ 53"
    by simp
  note keys = run_updates_keeps_keys [OF keys0, of calls]
  note inv = run_updates_keeps_counts [OF keys0 inv0 bound]
  from k have kS: "actionId \<in> S"
    by (simp add: S_def)
  with keys have kq: "actionId \<in> fst ` set (qValues (run_updates b0 calls))"
    and kc: "actionId \<in> fst ` set (actionCounts (run_updates b0 calls))"
    by simp_all
  from map_of_key [OF kq] obtain oldQ where q: "map_of (qValues (run_updates b0 calls)) actionId = Some oldQ" ..
  from map_of_key [OF kc] obtain v where v: "map_of (actionCounts (run_updates b0 calls)) actionId = Some v" ..
  with inv obtain n where n: "n \<le> 0 + length calls" "v = Num (real n)"
    by auto
  from n(1) len have "n < 2 ^ 53"
    by simp
  with q v n(2) show ?thesis
    by auto
qed

lemma constructed_keys:
  assumes b0: "constructor arms0 alpha0 gamma0 epsilon0 t0 = Inr b0"
  shows "fst ` set (qValues (run_updates b0 calls)) = id_offer ` set arms0 - {''__proto__''} \<and>
         fst ` set (actionCounts (run_updates b0 calls)) = id_offer ` set arms0 - {''__proto__''} \<and>
         arms (run_updates b0 calls) = arms0"
proof -
  from constructor_result [of arms0 alpha0 gamma0 epsilon0 t0] b0
  have keys0: "fst ` set (qValues b0) = id_offer ` set arms0 - {''__proto__''}"
    "fst ` set (actionCounts b0) = id_offer ` set arms0 - {''__proto__''}"
    and a: "arms b0 = arms0"
    by auto
  from run_updates_keeps_keys [OF keys0, of calls] a show ?thesis
    by simp
qed

lemma update_keeps_parameters:
  "update b actionId reward now = Inl TypeError \<or>
   (\<exists>b' w. update b actionId reward now = Inr (b', w) \<and> epsilon b' = epsilon b \<and>
          arms b' = arms b \<and> alpha b' = alpha b \<and> gamma b' = gamma b)"
  using update_cases [of b actionId reward now] by auto

lemma update_entry:
  assumes h: "map_of (qValues b) ''hasOwnProperty'' = None"
    and q: "map_of (qValues b) actionId = Some oldQ"
    and c: "map_of (actionCounts b) actionId = Some (Num (real n))"
    and n: "n < 2 ^ 53"
  shows "\<exists>b'. update b actionId reward now = Inr (b', []) \<and>
       map_of (qValues b') actionId = Some (js_add oldQ (js_mul (alpha b) (js_sub reward oldQ))) \<and>
       map_of (actionCounts b') actionId = Some (Num (real (n + 1))) \<and>
       totalReward b' = js_add (totalReward b) reward \<and>
       lastUpdated b' = now \<and>
       (\<forall>k. k \<noteq> actionId \<longrightarrow>
          map_of (qValues b') k = map_of (qValues b) k \<and>
          map_of (actionCounts b') k = map_of (actionCounts b) k) \<and>
       arms b' = arms b \<and> alpha b' = alpha b \<and> gamma b' = gamma b \<and> epsilon b' = epsilon b"
proof -
  define newQ where "newQ = js_add oldQ (js_mul (alpha b) (js_sub reward oldQ))"
  define b' where "b' = b \<lparr> qValues := AList.update actionId newQ (qValues b),
             actionCounts := AList.update actionId (Num (real (n + 1))) (actionCounts b),
             totalReward := js_add (totalReward b) reward,
             lastUpdated := now \<rparr>"
  have get: "to_number (js_get (actionCounts b) actionId) = Num (real n)"
    by (simp add: js_get_def c)
  have val: "js_add (to_number (js_get (actionCounts b) actionId)) (Num 1) = Num (real (n + 1))"
    by (simp only: get js_add_count [OF n])
  have "update b actionId reward now =
    Inr (b \<lparr> qValues := js_set actionId newQ (qValues b),
             actionCounts := js_set actionId
                (js_add (to_number (js_get (actionCounts b) actionId)) (Num 1)) (actionCounts b),
             totalReward := js_add (totalReward b) reward,
             lastUpdated := now \<rparr>, [])"
    unfolding newQ_def by (rule update_known [OF h q])
  then have u: "update b actionId reward now = Inr (b', [])"
    by (simp only: val js_set_own [OF q] js_set_own [OF c] b'_def)
  have q': "map_of (qValues b') actionId = Some newQ"
    by (simp add: b'_def AList.update_conv')
  have c': "map_of (actionCounts b') actionId = Some (Num (real (n + 1)))"
    by (simp add: b'_def AList.update_conv')
  have others: "\<forall>k. k \<noteq> actionId \<longrightarrow>
         map_of (qValues b') k = map_of (qValues b) k \<and>
         map_of (actionCounts b') k = map_of (actionCounts b) k"
    by (simp add: b'_def AList.update_conv')
  have rest: "totalReward b' = js_add (totalReward b) reward" "lastUpdated b' = now"
    "arms b' = arms b" "alpha b' = alpha b" "gamma b' = gamma b" "epsilon b' = epsilon b"
    by (simp_all add: b'_def)
  from u q' [unfolded newQ_def] c' others rest show ?thesis
    by (intro exI [of _ b'] conjI)
qed

lemma no_shadowing_key:
  assumes b0: "constructor arms0 alpha0 gamma0 epsilon0 t0 = Inr b0"
    and "k \<notin> id_offer ` set arms0"
  shows "map_of (qValues (run_updates b0 calls)) k = None"
proof -
  from constructed_keys [OF b0, of calls] assms(2)
  have "k \<notin> fst ` set (qValues (run_updates b0 calls))"
    by simp
  then show ?thesis
    by (simp add: map_of_eq_None_iff)
qed

subsection \<open>Construction\<close>

text \<open>
  C1 (as stated, refuted): constructing a bandit with an empty arm list is rejected.
  The constructor returns an instance for the empty list: one with no arm and two empty
  dictionaries.
\<close>

theorem constructor_accepts_empty_arms:
  "\<not> isl (constructor [] None None None 0) \<and>
   constructor [] None None None 0 =
     Inr \<lparr> qValues = [], actionCounts = [], totalReward = Num 0, lastUpdated = 0, arms = [],
           alpha = Num 0.1, gamma = Num 0.9, epsilon = Num 0.1 \<rparr>"
  by (simp add: constructor_def default_arg_def)

text \<open>
  C1 (amended): constructing a bandit with an empty arm list does not fail. For the
  empty arm list, with any parameters, the constructor returns an instance; its arm list
  and its two dictionaries are empty. So an instance with an empty arm set exists.
\<close>

theorem constructor_builds_empty_instance:
  "\<exists>b. constructor [] alpha0 gamma0 epsilon0 now = Inr b \<and> arms b = [] \<and>
       qValues b = [] \<and> actionCounts b = []"
  by (simp add: constructor_def)

text \<open>
  What \<^verbatim>\<open>selectAction\<close> does on the instance built from the empty list: the exploring
  branch returns \<^verbatim>\<open>undefined\<close>, the exploiting branch throws.
\<close>

lemma selectAction_empty_arms:
  assumes "constructor [] alpha0 gamma0 epsilon0 now = Inr b"
  shows "selectAction b u1 u2 = (if js_lt (Num u1) (epsilon b) then Inr None else Inl TypeError)"
proof -
  from assms have "arms b = []" "qValues b = []"
    by (auto simp: constructor_def)
  then show ?thesis
    by (simp add: selectAction_def array_get_def object_keys_def)
qed

subsection \<open>update on a configured arm\<close>

text \<open>
  C2 (as stated, refuted): for every configured arm id, \<^verbatim>\<open>update\<close> moves that arm's
  estimate, increments its count by one, adds the reward to the total and sets the
  timestamp. Four instances on which it does not, each for a configured arm and the
  reward \<open>1\<close>:
  \<^item> the one-arm instance after \<^verbatim>\<open>loadState\<close> of a snapshot taken from another
    configuration: the arm \<open>A\<close> has no entry, the call warns and changes nothing;
  \<^item> the one-arm instance after \<^verbatim>\<open>loadState\<close> of a snapshot in which the count of
    \<open>A\<close> is \<open>2^53\<close>: the estimate, the total and the timestamp change, the count
    stays \<open>2^53\<close>;
  \<^item> the instance constructed from one arm named \<^verbatim>\<open>hasOwnProperty\<close>: the call
    throws a \<^verbatim>\<open>TypeError\<close>;
  \<^item> the instance constructed from one arm named \<^verbatim>\<open>__proto__\<close>: the arm has no
    entry, the call warns and changes nothing.
\<close>

theorem update_configured_arm_fails:
  "''A'' \<in> id_offer ` set (arms (loadState (bandit_A 0.1) snapshot_Z)) \<and>
   update (loadState (bandit_A 0.1) snapshot_Z) ''A'' (Num 1) 5 =
     Inr (loadState (bandit_A 0.1) snapshot_Z, [''Unknown action ID: A'']) \<and>
   ''A'' \<in> id_offer ` set (arms (loadState (bandit_A 0.1) snapshot_full)) \<and>
   update (loadState (bandit_A 0.1) snapshot_full) ''A'' (Num 1) 5 =
     Inr ((bandit_A 0.1) \<lparr> qValues := [(''A'', Num 0.1)],
            actionCounts := [(''A'', Num (2 ^ 53))], totalReward := Num 1,
            lastUpdated := 5 \<rparr>, []) \<and>
   constructor [arm ''hasOwnProperty'' (Num 0.1)] None None None 0 = Inr bandit_shadowed \<and>
   update bandit_shadowed ''hasOwnProperty'' (Num 1) 5 = Inl TypeError \<and>
   constructor [arm ''__proto__'' (Num 0.1)] None None None 0 = Inr bandit_proto \<and>
   update bandit_proto ''__proto__'' (Num 1) 5 =
     Inr (bandit_proto, [''Unknown action ID: __proto__''])"
proof (intro conjI)
  show "''A'' \<in> id_offer ` set (arms (loadState (bandit_A 0.1) snapshot_Z))"
    by (simp add: loadState_def bandit_A_def arm_def)
  show "update (loadState (bandit_A 0.1) snapshot_Z) ''A'' (Num 1) 5 =
     Inr (loadState (bandit_A 0.1) snapshot_Z, [''Unknown action ID: A''])"
    using update_unknown [of "loadState (bandit_A 0.1) snapshot_Z" "''A''" "Num 1" 5]
    by (simp add: loadState_def snapshot_Z_def)
  show "''A'' \<in> id_offer ` set (arms (loadState (bandit_A 0.1) snapshot_full))"
    by (simp add: loadState_def bandit_A_def arm_def)
  have h: "map_of (qValues (loadState (bandit_A 0.1) snapshot_full)) ''hasOwnProperty'' = None"
    and q: "map_of (qValues (loadState (bandit_A 0.1) snapshot_full)) ''A'' = Some (Num 0)"
    by (simp_all add: loadState_def snapshot_full_def)
  have count: "js_add (to_number (js_get (actionCounts (loadState (bandit_A 0.1) snapshot_full)) ''A''))
      (Num 1) = Num (2 ^ 53)"
  proof -
    have "to_number (js_get (actionCounts (loadState (bandit_A 0.1) snapshot_full)) ''A'') = Num (2 ^ 53)"
      by (simp add: loadState_def snapshot_full_def js_get_def)
    then show ?thesis
      by (simp only: js_add_stalls)
  qed
  have est: "js_add (Num 0) (js_mul (alpha (loadState (bandit_A 0.1) snapshot_full)) (js_sub (Num 1) (Num 0)))
      = Num 0.1"
    by (simp add: loadState_def bandit_A_def js_sub_def js_round_small)
  have total: "js_add (totalReward (loadState (bandit_A 0.1) snapshot_full)) (Num 1) = Num 1"
    by (simp add: loadState_def snapshot_full_def js_round_small)
  show "update (loadState (bandit_A 0.1) snapshot_full) ''A'' (Num 1) 5 =
     Inr ((bandit_A 0.1) \<lparr> qValues := [(''A'', Num 0.1)],
            actionCounts := [(''A'', Num (2 ^ 53))], totalReward := Num 1,
            lastUpdated := 5 \<rparr>, [])"
    unfolding update_known [OF h q] count est total
    by (simp add: loadState_def snapshot_full_def js_set_def)
  show "constructor [arm ''hasOwnProperty'' (Num 0.1)] None None None 0 = Inr bandit_shadowed"
    by (rule bandit_shadowed_constructed)
  show "update bandit_shadowed ''hasOwnProperty'' (Num 1) 5 = Inl TypeError"
    by (rule update_throws [of _ "Num 0"]) (simp add: bandit_shadowed_def)
  show "constructor [arm ''__proto__'' (Num 0.1)] None None None 0 = Inr bandit_proto"
    by (rule bandit_proto_constructed)
  show "update bandit_proto ''__proto__'' (Num 1) 5 =
     Inr (bandit_proto, [''Unknown action ID: __proto__''])"
    using update_unknown [of bandit_proto "''__proto__''" "Num 1" 5]
    by (simp add: bandit_proto_def)
qed

text \<open>
  C2 (amended): on an instance whose value-estimate dictionary has no own key
  \<^verbatim>\<open>hasOwnProperty\<close>, for an arm id that has an entry \<open>oldQ\<close> in the value-estimate
  dictionary and an entry in the count dictionary that is a natural number \<open>n\<close> below
  \<open>2^53\<close>, \<^verbatim>\<open>update\<close> returns without a warning, sets that arm's estimate to
  \<open>oldQ + alpha * (reward - oldQ)\<close> in the arithmetic of JavaScript numbers, sets its
  count to \<open>n + 1\<close>, adds the reward to the cumulative reward and sets the timestamp;
  no other arm's estimate or count changes, and the arms and the three parameters are
  kept. These conditions hold for every configured arm id other than \<^verbatim>\<open>__proto__\<close> in
  every state reached from the constructor by fewer than \<open>2^53\<close> calls of
  \<^verbatim>\<open>update\<close>, when no arm is named \<^verbatim>\<open>hasOwnProperty\<close>. The learning rate is
  \<open>0.1\<close> when the constructor is given none.
\<close>

theorem update_configured_arm:
  "(map_of (qValues b) ''hasOwnProperty'' = None \<and>
    map_of (qValues b) actionId = Some oldQ \<and>
    map_of (actionCounts b) actionId = Some (Num (real n)) \<and> n < 2 ^ 53 \<longrightarrow>
    (\<exists>b'. update b actionId reward now = Inr (b', []) \<and>
       map_of (qValues b') actionId = Some (js_add oldQ (js_mul (alpha b) (js_sub reward oldQ))) \<and>
       map_of (actionCounts b') actionId = Some (Num (real (n + 1))) \<and>
       totalReward b' = js_add (totalReward b) reward \<and>
       lastUpdated b' = now \<and>
       (\<forall>k. k \<noteq> actionId \<longrightarrow>
          map_of (qValues b') k = map_of (qValues b) k \<and>
          map_of (actionCounts b') k = map_of (actionCounts b) k) \<and>
       arms b' = arms b \<and> alpha b' = alpha b \<and> gamma b' = gamma b \<and> epsilon b' = epsilon b)) \<and>
   (constructor arms0 alpha0 gamma0 epsilon0 t0 = Inr b0 \<and> length calls < 2 ^ 53 \<and>
    ''hasOwnProperty'' \<notin> id_offer ` set arms0 \<and>
    armId \<in> id_offer ` set arms0 \<and> armId \<noteq> ''__proto__'' \<longrightarrow>
    map_of (qValues (run_updates b0 calls)) ''hasOwnProperty'' = None \<and>
    (\<exists>q m. map_of (qValues (run_updates b0 calls)) armId = Some q \<and>
           map_of (actionCounts (run_updates b0 calls)) armId = Some (Num (real m)) \<and>
           m < 2 ^ 53)) \<and>
   (\<exists>b1. constructor arms0 None gamma0 epsilon0 t0 = Inr b1 \<and> alpha b1 = Num 0.1)"
proof (intro conjI impI)
  assume "map_of (qValues b) ''hasOwnProperty'' = None \<and>
    map_of (qValues b) actionId = Some oldQ \<and>
    map_of (actionCounts b) actionId = Some (Num (real n)) \<and> n < 2 ^ 53"
  then have h: "map_of (qValues b) ''hasOwnProperty'' = None"
    and q: "map_of (qValues b) actionId = Some oldQ"
    and c: "map_of (actionCounts b) actionId = Some (Num (real n))"
    and n: "n < 2 ^ 53"
    by simp_all
  show "\<exists>b'. update b actionId reward now = Inr (b', []) \<and>
       map_of (qValues b') actionId = Some (js_add oldQ (js_mul (alpha b) (js_sub reward oldQ))) \<and>
       map_of (actionCounts b') actionId = Some (Num (real (n + 1))) \<and>
       totalReward b' = js_add (totalReward b) reward \<and>
       lastUpdated b' = now \<and>
       (\<forall>k. k \<noteq> actionId \<longrightarrow>
          map_of (qValues b') k = map_of (qValues b) k \<and>
          map_of (actionCounts b') k = map_of (actionCounts b) k) \<and>
       arms b' = arms b \<and> alpha b' = alpha b \<and> gamma b' = gamma b \<and> epsilon b' = epsilon b"
    by (rule update_entry [OF h q c n])
next
  assume a: "constructor arms0 alpha0 gamma0 epsilon0 t0 = Inr b0 \<and> length calls < 2 ^ 53 \<and>
    ''hasOwnProperty'' \<notin> id_offer ` set arms0 \<and>
    armId \<in> id_offer ` set arms0 \<and> armId \<noteq> ''__proto__''"
  then have b0: "constructor arms0 alpha0 gamma0 epsilon0 t0 = Inr b0"
    and h: "''hasOwnProperty'' \<notin> id_offer ` set arms0"
    by simp_all
  show "map_of (qValues (run_updates b0 calls)) ''hasOwnProperty'' = None"
    by (rule no_shadowing_key [OF b0 h])
next
  assume a: "constructor arms0 alpha0 gamma0 epsilon0 t0 = Inr b0 \<and> length calls < 2 ^ 53 \<and>
    ''hasOwnProperty'' \<notin> id_offer ` set arms0 \<and>
    armId \<in> id_offer ` set arms0 \<and> armId \<noteq> ''__proto__''"
  then have b0: "constructor arms0 alpha0 gamma0 epsilon0 t0 = Inr b0"
    and len: "length calls < 2 ^ 53"
    and k: "armId \<in> id_offer ` set arms0" "armId \<noteq> ''__proto__''"
    by simp_all
  show "\<exists>q m. map_of (qValues (run_updates b0 calls)) armId = Some q \<and>
           map_of (actionCounts (run_updates b0 calls)) armId = Some (Num (real m)) \<and>
           m < 2 ^ 53"
    by (rule constructed_entries [OF b0 len k])
next
  from constructor_result [of arms0 None gamma0 epsilon0 t0]
  show "\<exists>b1. constructor arms0 None gamma0 epsilon0 t0 = Inr b1 \<and> alpha b1 = Num 0.1"
    by (auto simp: default_arg_def)
qed

text \<open>
  The theorem at the two-arm instance with estimates \<open>0.5\<close> and \<open>0.25\<close>, counts
  \<open>3\<close> and \<open>7\<close> and learning rate \<open>0.5\<close>: a reward of \<open>1\<close> for \<open>A\<close> moves
  its estimate to \<open>0.75\<close> and its count to \<open>4\<close>, the total from \<open>2\<close> to \<open>3\<close>,
  and leaves \<open>B\<close> as it is. And at the one-arm instance after one update of \<open>A\<close>
  and one of an unknown arm.
\<close>

theorem update_configured_arm_witness:
  "map_of (qValues bandit_AB) ''hasOwnProperty'' = None \<and>
   map_of (qValues bandit_AB) ''A'' = Some (Num 0.5) \<and>
   map_of (actionCounts bandit_AB) ''A'' = Some (Num (real 3)) \<and> (3 :: nat) < 2 ^ 53 \<and>
   (\<exists>b'. update bandit_AB ''A'' (Num 1) 9 = Inr (b', []) \<and>
      map_of (qValues b') ''A'' = Some (Num 0.75) \<and>
      map_of (actionCounts b') ''A'' = Some (Num 4) \<and>
      totalReward b' = Num 3 \<and> lastUpdated b' = 9 \<and>
      map_of (qValues b') ''B'' = Some (Num 0.25) \<and>
      map_of (actionCounts b') ''B'' = Some (Num 7)) \<and>
   constructor [arm ''A'' (Num 0.1)] None None None 0 = Inr (bandit_A 0.1) \<and>
   length [(''A'', Num 1, 1 :: int), (''Q'', Num 1, 2)] < 2 ^ 53 \<and>
   ''hasOwnProperty'' \<notin> id_offer ` set [arm ''A'' (Num 0.1)] \<and>
   ''A'' \<in> id_offer ` set [arm ''A'' (Num 0.1)] \<and> ''A'' \<noteq> ''__proto__'' \<and>
   map_of (qValues (run_updates (bandit_A 0.1) [(''A'', Num 1, 1), (''Q'', Num 1, 2)]))
     ''hasOwnProperty'' = None \<and>
   (\<exists>q m. map_of (qValues (run_updates (bandit_A 0.1) [(''A'', Num 1, 1), (''Q'', Num 1, 2)]))
            ''A'' = Some q \<and>
          map_of (actionCounts (run_updates (bandit_A 0.1) [(''A'', Num 1, 1), (''Q'', Num 1, 2)]))
            ''A'' = Some (Num (real m)) \<and> m < 2 ^ 53)"
proof -
  let ?calls = "[(''A'', Num 1, 1 :: int), (''Q'', Num 1, 2)]"
  have a: "map_of (qValues bandit_AB) ''hasOwnProperty'' = None \<and>
      map_of (qValues bandit_AB) ''A'' = Some (Num 0.5) \<and>
      map_of (actionCounts bandit_AB) ''A'' = Some (Num (real 3)) \<and> (3 :: nat) < 2 ^ 53"
    by (simp add: bandit_AB_def)
  have b: "constructor [arm ''A'' (Num 0.1)] None None None 0 = Inr (bandit_A 0.1) \<and>
      length ?calls < 2 ^ 53 \<and>
      ''hasOwnProperty'' \<notin> id_offer ` set [arm ''A'' (Num 0.1)] \<and>
      ''A'' \<in> id_offer ` set [arm ''A'' (Num 0.1)] \<and> ''A'' \<noteq> ''__proto__''"
    using bandit_A_constructed [of "0.1"] by (simp add: arm_def)
  note inst = update_configured_arm [where b = bandit_AB and actionId = "''A''" and oldQ = "Num 0.5"
      and n = "3" and reward = "Num 1" and now = "9" and ?arms0.0 = "[arm ''A'' (Num 0.1)]"
      and ?alpha0.0 = None and ?gamma0.0 = None and ?epsilon0.0 = None and ?t0.0 = "0"
      and ?b0.0 = "bandit_A 0.1" and calls = "?calls" and armId = "''A''"]
  from inst a obtain b' where
    u: "update bandit_AB ''A'' (Num 1) 9 = Inr (b', [])" and
    q': "map_of (qValues b') ''A'' =
          Some (js_add (Num 0.5) (js_mul (alpha bandit_AB) (js_sub (Num 1) (Num 0.5))))" and
    c': "map_of (actionCounts b') ''A'' = Some (Num (real (3 + 1)))" and
    t: "totalReward b' = js_add (totalReward bandit_AB) (Num 1)" and
    l: "lastUpdated b' = 9" and
    others: "\<forall>k. k \<noteq> ''A'' \<longrightarrow>
          map_of (qValues b') k = map_of (qValues bandit_AB) k \<and>
          map_of (actionCounts b') k = map_of (actionCounts bandit_AB) k"
    by auto
  have est: "js_add (Num 0.5) (js_mul (alpha bandit_AB) (js_sub (Num 1) (Num 0.5))) = Num 0.75"
    by (simp add: bandit_AB_def js_sub_def js_round_small)
  have tot: "js_add (totalReward bandit_AB) (Num 1) = Num 3"
    by (simp add: bandit_AB_def js_round_small)
  from others have "map_of (qValues b') ''B'' = map_of (qValues bandit_AB) ''B''"
    and "map_of (actionCounts b') ''B'' = map_of (actionCounts bandit_AB) ''B''"
    by simp_all
  then have other: "map_of (qValues b') ''B'' = Some (Num 0.25)"
    "map_of (actionCounts b') ''B'' = Some (Num 7)"
    by (simp_all add: bandit_AB_def)
  have first: "\<exists>b'. update bandit_AB ''A'' (Num 1) 9 = Inr (b', []) \<and>
      map_of (qValues b') ''A'' = Some (Num 0.75) \<and>
      map_of (actionCounts b') ''A'' = Some (Num 4) \<and>
      totalReward b' = Num 3 \<and> lastUpdated b' = 9 \<and>
      map_of (qValues b') ''B'' = Some (Num 0.25) \<and>
      map_of (actionCounts b') ''B'' = Some (Num 7)"
    using u q' [unfolded est] c' t [unfolded tot] l other by (intro exI [of _ b']) simp
  from inst b have second:
    "map_of (qValues (run_updates (bandit_A 0.1) ?calls)) ''hasOwnProperty'' = None \<and>
     (\<exists>q m. map_of (qValues (run_updates (bandit_A 0.1) ?calls)) ''A'' = Some q \<and>
          map_of (actionCounts (run_updates (bandit_A 0.1) ?calls)) ''A'' = Some (Num (real m)) \<and>
          m < 2 ^ 53)"
    by blast
  from a first b second show ?thesis
    by (intro conjI) simp_all
qed

subsection \<open>update on an unknown arm\<close>

text \<open>
  C4 (as stated, refuted): for an arm id outside the configured arm set, \<^verbatim>\<open>update\<close>
  leaves the whole state unchanged and no exception propagates. After \<^verbatim>\<open>loadState\<close>
  of a snapshot taken from another configuration, the id \<open>Z\<close>, which is not configured,
  has an entry: the call changes the estimate, the count, the total and the timestamp.
  And on the instance constructed from one arm named \<^verbatim>\<open>hasOwnProperty\<close>, the call
  for the unconfigured id \<open>Z\<close> throws a \<^verbatim>\<open>TypeError\<close>.
\<close>

theorem update_unknown_arm_fails:
  "''Z'' \<notin> id_offer ` set (arms (loadState (bandit_A 0.1) snapshot_Z)) \<and>
   update (loadState (bandit_A 0.1) snapshot_Z) ''Z'' (Num 1) 5 =
     Inr ((bandit_A 0.1) \<lparr> qValues := [(''Z'', Num 0.1)], actionCounts := [(''Z'', Num 1)],
            totalReward := Num 1, lastUpdated := 5 \<rparr>, []) \<and>
   (bandit_A 0.1) \<lparr> qValues := [(''Z'', Num 0.1)], actionCounts := [(''Z'', Num 1)],
            totalReward := Num 1, lastUpdated := 5 \<rparr> \<noteq> loadState (bandit_A 0.1) snapshot_Z \<and>
   ''Z'' \<notin> id_offer ` set (arms bandit_shadowed) \<and>
   update bandit_shadowed ''Z'' (Num 1) 5 = Inl TypeError"
proof (intro conjI)
  show "''Z'' \<notin> id_offer ` set (arms (loadState (bandit_A 0.1) snapshot_Z))"
    by (simp add: loadState_def bandit_A_def arm_def)
  have h: "map_of (qValues (loadState (bandit_A 0.1) snapshot_Z)) ''hasOwnProperty'' = None"
    and q: "map_of (qValues (loadState (bandit_A 0.1) snapshot_Z)) ''Z'' = Some (Num 0)"
    by (simp_all add: loadState_def snapshot_Z_def)
  show "update (loadState (bandit_A 0.1) snapshot_Z) ''Z'' (Num 1) 5 =
     Inr ((bandit_A 0.1) \<lparr> qValues := [(''Z'', Num 0.1)], actionCounts := [(''Z'', Num 1)],
            totalReward := Num 1, lastUpdated := 5 \<rparr>, [])"
    unfolding update_known [OF h q]
    by (simp add: loadState_def snapshot_Z_def bandit_A_def js_set_def js_get_def js_sub_def
        js_round_small)
  show "(bandit_A 0.1) \<lparr> qValues := [(''Z'', Num 0.1)], actionCounts := [(''Z'', Num 1)],
            totalReward := Num 1, lastUpdated := 5 \<rparr> \<noteq> loadState (bandit_A 0.1) snapshot_Z"
    by (simp add: loadState_def snapshot_Z_def bandit_A_def)
  show "''Z'' \<notin> id_offer ` set (arms bandit_shadowed)"
    by (simp add: bandit_shadowed_def arm_def)
  show "update bandit_shadowed ''Z'' (Num 1) 5 = Inl TypeError"
    by (rule update_throws [of _ "Num 0"]) (simp add: bandit_shadowed_def)
qed

text \<open>
  C4 (amended): on an instance whose value-estimate dictionary has no own key
  \<^verbatim>\<open>hasOwnProperty\<close>, for an arm id that has no entry in the value-estimate
  dictionary, \<^verbatim>\<open>update\<close> returns the instance unchanged, with one warning, and throws
  nothing. In every state reached from the constructor by calls of \<^verbatim>\<open>update\<close>, when
  no arm is named \<^verbatim>\<open>hasOwnProperty\<close>, this is so for every arm id outside the
  configured arm set.
\<close>

theorem update_unknown_arm:
  "(map_of (qValues b) ''hasOwnProperty'' = None \<and> map_of (qValues b) actionId = None \<longrightarrow>
      update b actionId reward now = Inr (b, [''Unknown action ID: '' @ actionId])) \<and>
   (constructor arms0 alpha0 gamma0 epsilon0 t0 = Inr b0 \<and>
    ''hasOwnProperty'' \<notin> id_offer ` set arms0 \<and> armId \<notin> id_offer ` set arms0 \<longrightarrow>
      update (run_updates b0 calls) armId reward now =
        Inr (run_updates b0 calls, [''Unknown action ID: '' @ armId]))"
proof (intro conjI impI)
  assume "map_of (qValues b) ''hasOwnProperty'' = None \<and> map_of (qValues b) actionId = None"
  then show "update b actionId reward now = Inr (b, [''Unknown action ID: '' @ actionId])"
    by (simp add: update_unknown)
next
  assume "constructor arms0 alpha0 gamma0 epsilon0 t0 = Inr b0 \<and>
    ''hasOwnProperty'' \<notin> id_offer ` set arms0 \<and> armId \<notin> id_offer ` set arms0"
  then have b0: "constructor arms0 alpha0 gamma0 epsilon0 t0 = Inr b0"
    and h: "''hasOwnProperty'' \<notin> id_offer ` set arms0" and k: "armId \<notin> id_offer ` set arms0"
    by simp_all
  show "update (run_updates b0 calls) armId reward now =
        Inr (run_updates b0 calls, [''Unknown action ID: '' @ armId])"
    by (rule update_unknown [OF no_shadowing_key [OF b0 h] no_shadowing_key [OF b0 k]])
qed

text \<open>
  The theorem at the two-arm instance and at the one-arm instance after two updates,
  for the id \<open>Q\<close>.
\<close>

theorem update_unknown_arm_witness:
  "map_of (qValues bandit_AB) ''hasOwnProperty'' = None \<and>
   map_of (qValues bandit_AB) ''Q'' = None \<and>
   update bandit_AB ''Q'' (Num 1) 9 = Inr (bandit_AB, [''Unknown action ID: Q'']) \<and>
   constructor [arm ''A'' (Num 0.1)] None None None 0 = Inr (bandit_A 0.1) \<and>
   ''hasOwnProperty'' \<notin> id_offer ` set [arm ''A'' (Num 0.1)] \<and>
   ''Q'' \<notin> id_offer ` set [arm ''A'' (Num 0.1)] \<and>
   update (run_updates (bandit_A 0.1) [(''A'', Num 1, 1), (''Q'', Num 1, 2)]) ''Q'' (Num 1) 9 =
     Inr (run_updates (bandit_A 0.1) [(''A'', Num 1, 1), (''Q'', Num 1, 2)],
          [''Unknown action ID: Q''])"
proof -
  let ?calls = "[(''A'', Num 1, 1 :: int), (''Q'', Num 1, 2)]"
  have a: "map_of (qValues bandit_AB) ''hasOwnProperty'' = None \<and>
      map_of (qValues bandit_AB) ''Q'' = None"
    by (simp add: bandit_AB_def)
  have b: "constructor [arm ''A'' (Num 0.1)] None None None 0 = Inr (bandit_A 0.1) \<and>
      ''hasOwnProperty'' \<notin> id_offer ` set [arm ''A'' (Num 0.1)] \<and>
      ''Q'' \<notin> id_offer ` set [arm ''A'' (Num 0.1)]"
    using bandit_A_constructed [of "0.1"] by (simp add: arm_def)
  note inst = update_unknown_arm [where b = bandit_AB and actionId = "''Q''" and reward = "Num 1"
      and now = "9" and ?arms0.0 = "[arm ''A'' (Num 0.1)]"
      and ?alpha0.0 = None and ?gamma0.0 = None and ?epsilon0.0 = None and ?t0.0 = "0"
      and ?b0.0 = "bandit_A 0.1" and calls = "?calls" and armId = "''Q''"]
  from inst a have first: "update bandit_AB ''Q'' (Num 1) 9 = Inr (bandit_AB, [''Unknown action ID: Q''])"
    by simp
  from inst b have second:
    "update (run_updates (bandit_A 0.1) ?calls) ''Q'' (Num 1) 9 =
       Inr (run_updates (bandit_A 0.1) ?calls, [''Unknown action ID: Q''])"
    by simp
  from a first b second show ?thesis
    by (intro conjI) simp_all
qed

subsection \<open>The keys of the two dictionaries\<close>




subsection \<open>calculateReward\<close>




lemma js_mul_Num_not_NaN: "js_mul (Num a) (Num b) \<noteq> NaN"
  by (simp add: js_round_not_NaN)



lemma find_in_set: "find P xs = Some x \<Longrightarrow> x \<in> set xs"
  by (auto simp: find_Some_iff)






text \<open>
  The method on the one-arm instance, arm cost \<open>0.1\<close>: an accepted offer on a
  revenue of \<open>100\<close> is \<open>89.99\<close> before the clamp and \<open>1\<close> after it; a declined
  one is \<open>-0.1 - 0.01\<close>; an ignored one is \<open>-0.01\<close>.
\<close>

lemma calculateReward_examples:
  "calculateReward (bandit_A 0.1) ''A'' Accepted (Num 100) (Num 0.1) = Num 1"
  "calculateReward (bandit_A 0.1) ''A'' Declined (Num 100) (Num 0.1) = Num (- 0.11)"
  "calculateReward (bandit_A 0.1) ''A'' Ignored (Num 100) (Num 0.1) = Num (- 0.01)"
  by (simp_all add: calculateReward_def bandit_A_def arm_def js_sub_def js_max_def js_min_def
      js_round_small Let_def)

text \<open>
  C10: for an arm id that is not configured the reward is exactly \<open>0\<close>, whatever
  the other three arguments.
\<close>

theorem calculateReward_unknown_arm:
  assumes "actionId \<notin> id_offer ` set (arms b)"
  shows "calculateReward b actionId userResponse mrrValue offerCost = Num 0"
proof -
  from assms have "find (\<lambda>x. id_offer x = actionId) (arms b) = None"
    by (auto simp: find_None_iff)
  then show ?thesis
    by (simp add: calculateReward_def)
qed

text \<open>
  The theorem at the one-arm instance, for the id \<open>Z\<close>.
\<close>

theorem calculateReward_unknown_arm_witness:
  "''Z'' \<notin> id_offer ` set (arms (bandit_A 0.1)) \<and>
   calculateReward (bandit_A 0.1) ''Z'' Accepted (Num 100) (Num 0.1) = Num 0"
proof -
  have h: "''Z'' \<notin> id_offer ` set (arms (bandit_A 0.1))"
    by (simp add: bandit_A_def arm_def)
  from calculateReward_unknown_arm [OF h] h show ?thesis
    by simp
qed




subsection \<open>Snapshots\<close>

text \<open>
  C5 (as stated, refuted): the snapshot contains the exploration rate and
  \<^verbatim>\<open>loadState\<close> restores it. Two instances that differ only in the exploration rate
  have the same snapshot, and loading the snapshot of the one with rate \<open>0.5\<close> into
  the one with rate \<open>0.1\<close> leaves the rate at \<open>0.1\<close>.
\<close>

theorem snapshot_omits_exploration_rate:
  "epsilon (bandit_A 0.1) = Num 0.1 \<and>
   epsilon ((bandit_A 0.1) \<lparr> epsilon := Num 0.5 \<rparr>) = Num 0.5 \<and>
   getState ((bandit_A 0.1) \<lparr> epsilon := Num 0.5 \<rparr>) = getState (bandit_A 0.1) \<and>
   epsilon (loadState (bandit_A 0.1) (getState ((bandit_A 0.1) \<lparr> epsilon := Num 0.5 \<rparr>))) = Num 0.1"
  by (simp add: getState_def loadState_def bandit_A_def)

text \<open>
  C5 (amended): the snapshot holds four fields, the value estimates, the counts, the
  cumulative reward and the timestamp, each as the instance has it, and it does not depend
  on the exploration rate. \<^verbatim>\<open>loadState\<close> replaces these four fields by the
  snapshot's and keeps the exploration rate, the arms and the other parameters of the
  instance.
\<close>

theorem snapshot_fields:
  "qValues (getState b) = qValues b \<and>
   actionCounts (getState b) = actionCounts b \<and>
   totalReward (getState b) = totalReward b \<and>
   lastUpdated (getState b) = lastUpdated b \<and>
   getState (b \<lparr> epsilon := e \<rparr>) = getState b \<and>
   qValues (loadState b s) = qValues s \<and>
   actionCounts (loadState b s) = actionCounts s \<and>
   totalReward (loadState b s) = totalReward s \<and>
   lastUpdated (loadState b s) = lastUpdated s \<and>
   epsilon (loadState b s) = epsilon b \<and>
   arms (loadState b s) = arms b \<and> alpha (loadState b s) = alpha b \<and>
   gamma (loadState b s) = gamma b"
  by (simp add: getState_def loadState_def)

text \<open>
  C6: loading the instance's own snapshot gives back the same instance, so every value
  of \<^verbatim>\<open>getMetrics\<close> is as before.
\<close>

theorem snapshot_round_trip:
  "loadState b (getState b) = b \<and> getMetrics (loadState b (getState b)) = getMetrics b"
  by (simp add: loadState_def getState_def)

text \<open>The metrics of the two-arm instance: ten selections, average reward \<open>0.2\<close>.\<close>

lemma getMetrics_example:
  "totalActions (getMetrics bandit_AB) = Num 10 \<and>
   avgReward (getMetrics bandit_AB) = Num 0.2 \<and>
   explorationRate (getMetrics bandit_AB) = Num 0.1"
  by (simp add: getMetrics_def bandit_AB_def js_gt_def js_round_small object_values_def
      object_keys_def is_array_index_def is_digit_def js_get_def)

subsection \<open>Exploration rate\<close>

text \<open>
  \<^verbatim>\<open>Math.max(0.01, x)\<close> is at least \<open>0.01\<close> unless \<open>x\<close> is \<open>NaN\<close>, and the
  product is \<open>NaN\<close> when a factor is, or when one factor is zero and the other
  infinite.
\<close>

lemma floor_of_max: "x \<noteq> NaN \<Longrightarrow> not_below 0.01 (js_max (Num 0.01) x)"
  by (cases x) (simp_all add: js_max_def not_below_def)

lemma not_below_not_NaN: "not_below lo v \<Longrightarrow> v \<noteq> NaN"
  by (cases v) (simp_all add: not_below_def)

lemma js_mul_nonzero: "e \<noteq> NaN \<Longrightarrow> nonzero r \<Longrightarrow> js_mul e r \<noteq> NaN"
  by (cases e; cases r) (simp_all add: nonzero_def js_round_not_NaN Let_def)

lemma decayEpsilon_epsilon:
  "epsilon (decayEpsilon b decayRate0) =
     js_max (Num 0.01) (js_mul (epsilon b) (default_arg (Num 0.99) decayRate0))"
  by (simp add: decayEpsilon_def)

lemma decayEpsilon_floor_finite:
  assumes "epsilon b = Num e" and "default_arg (Num 0.99) decayRate0 = Num r"
  shows "not_below 0.01 (epsilon (decayEpsilon b decayRate0))"
proof -
  have "js_mul (Num e) (Num r) \<noteq> NaN"
    by (simp add: js_round_not_NaN)
  then have "not_below 0.01 (js_max (Num 0.01) (js_mul (Num e) (Num r)))"
    by (rule floor_of_max)
  then show ?thesis
    by (simp only: decayEpsilon_epsilon assms)
qed

lemma decayEpsilon_floor_nonzero:
  assumes "epsilon b \<noteq> NaN" and "nonzero (default_arg (Num 0.99) decayRate0)"
  shows "not_below 0.01 (epsilon (decayEpsilon b decayRate0))"
proof -
  from assms have "js_mul (epsilon b) (default_arg (Num 0.99) decayRate0) \<noteq> NaN"
    by (rule js_mul_nonzero)
  then have "not_below 0.01 (js_max (Num 0.01) (js_mul (epsilon b) (default_arg (Num 0.99) decayRate0)))"
    by (rule floor_of_max)
  then show ?thesis
    by (simp only: decayEpsilon_epsilon)
qed

lemma decay_sequence_not_NaN:
  "epsilon b \<noteq> NaN \<Longrightarrow> list_all (\<lambda>r. nonzero (default_arg (Num 0.99) r)) rates \<Longrightarrow>
     epsilon (foldl decayEpsilon b rates) \<noteq> NaN"
proof (induction rates arbitrary: b)
  case Nil
  then show ?case by simp
next
  case (Cons r rates)
  from Cons.prems(2) have r: "nonzero (default_arg (Num 0.99) r)"
    and rest: "list_all (\<lambda>r. nonzero (default_arg (Num 0.99) r)) rates"
    by simp_all
  from decayEpsilon_floor_nonzero [OF Cons.prems(1) r]
  have "epsilon (decayEpsilon b r) \<noteq> NaN"
    by (rule not_below_not_NaN)
  from Cons.IH [OF this rest] show ?case
    by simp
qed

lemma decay_sequence_floor:
  assumes "epsilon b \<noteq> NaN" and "rates \<noteq> []"
    and "list_all (\<lambda>r. nonzero (default_arg (Num 0.99) r)) rates"
  shows "not_below 0.01 (epsilon (foldl decayEpsilon b rates))"
proof -
  from assms(2) obtain rs r where rates: "rates = rs @ [r]"
    by (cases rates rule: rev_cases) auto
  from assms(3) have rs: "list_all (\<lambda>r. nonzero (default_arg (Num 0.99) r)) rs"
    and r: "nonzero (default_arg (Num 0.99) r)"
    by (simp_all add: rates)
  from decay_sequence_not_NaN [OF assms(1) rs]
  have "epsilon (foldl decayEpsilon b rs) \<noteq> NaN" .
  from decayEpsilon_floor_nonzero [OF this r] show ?thesis
    by (simp add: rates)
qed

lemma decayEpsilon_unit_interval:
  assumes e: "in_range 0 1 (epsilon b)" and r: "not_above 1 (default_arg (Num 0.99) decayRate0)"
  shows "in_range 0 1 (epsilon (decayEpsilon b decayRate0))"
proof -
  from e obtain x where x: "epsilon b = Num x" "0 \<le> x" "x \<le> 1"
    by (cases "epsilon b") (simp_all add: in_range_def)
  from r obtain y where y: "default_arg (Num 0.99) decayRate0 = Num y" "y \<le> 1"
    by (cases "default_arg (Num 0.99) decayRate0") (simp_all add: not_above_def)
  have "x * y \<le> x * 1"
    using x(2) y(2) by (rule mult_left_mono [rotated])
  with x(3) have p: "x * y \<le> 1"
    by simp
  have "epsilon (decayEpsilon b decayRate0) = js_max (Num 0.01) (js_mul (Num x) (Num y))"
    by (simp only: decayEpsilon_epsilon x(1) y(1))
  moreover have "js_mul (Num x) (Num y) = js_round (x * y)"
    by simp
  ultimately have eq: "epsilon (decayEpsilon b decayRate0) = js_max (Num 0.01) (js_round (x * y))"
    by (simp only:)
  show ?thesis
  proof (cases "\<bar>x * y\<bar> \<le> 2 ^ 53")
    case True
    then have "js_round (x * y) = Num (x * y)"
      by (rule js_round_small)
    with p show ?thesis
      by (simp add: eq js_max_def in_range_def)
  next
    case False
    with p have "x * y < 0"
      by simp
    from js_round_negative [OF this] show ?thesis
      by (auto simp: eq js_max_def in_range_def)
  qed
qed

lemma decay_sequence_unit_interval:
  "in_range 0 1 (epsilon b) \<Longrightarrow> list_all (\<lambda>r. not_above 1 (default_arg (Num 0.99) r)) rates \<Longrightarrow>
     in_range 0 1 (epsilon (foldl decayEpsilon b rates))"
proof (induction rates arbitrary: b)
  case Nil
  then show ?case by simp
next
  case (Cons r rates)
  from Cons.prems(2) have r: "not_above 1 (default_arg (Num 0.99) r)"
    and rest: "list_all (\<lambda>r. not_above 1 (default_arg (Num 0.99) r)) rates"
    by simp_all
  from Cons.IH [OF decayEpsilon_unit_interval [OF Cons.prems(1) r] rest] show ?case
    by simp
qed

text \<open>
  C9 (as stated, refuted): the exploration rate is in \<open>[0, 1]\<close> after construction
  and after \<^verbatim>\<open>decayEpsilon\<close> with any rate, and never below \<open>0.01\<close> after a decay.
  From the instance built with default parameters, \<^verbatim>\<open>decayEpsilon(20)\<close> gives the
  rate \<open>2\<close>; the constructor called with the rate \<open>5\<close> stores \<open>5\<close>;
  \<^verbatim>\<open>decayEpsilon(NaN)\<close> gives the rate \<open>NaN\<close>, which is not a number at or above
  \<open>0.01\<close>; and so does \<^verbatim>\<open>decayEpsilon(-Infinity)\<close> on the rate \<open>0\<close>.
\<close>

theorem exploration_rate_leaves_unit_interval:
  "constructor [arm ''A'' (Num 0.1)] None None None 0 = Inr (bandit_A 0.1) \<and>
   epsilon (bandit_A 0.1) = Num 0.1 \<and>
   epsilon (decayEpsilon (bandit_A 0.1) (Some (Num 20))) = Num 2 \<and>
   \<not> in_range 0 1 (epsilon (decayEpsilon (bandit_A 0.1) (Some (Num 20)))) \<and>
   constructor [arm ''A'' (Num 0.1)] None None (Some (Num 5)) 0 =
     Inr ((bandit_A 0.1) \<lparr> epsilon := Num 5 \<rparr>) \<and>
   \<not> in_range 0 1 (epsilon ((bandit_A 0.1) \<lparr> epsilon := Num 5 \<rparr>)) \<and>
   epsilon (decayEpsilon (bandit_A 0.1) (Some NaN)) = NaN \<and>
   \<not> not_below 0.01 (epsilon (decayEpsilon (bandit_A 0.1) (Some NaN))) \<and>
   epsilon (decayEpsilon ((bandit_A 0.1) \<lparr> epsilon := Num 0 \<rparr>) (Some NInf)) = NaN"
  by (simp add: decayEpsilon_def default_arg_def constructor_def bandit_A_def arm_def
      js_set_def js_max_def js_round_small in_range_def not_below_def)

text \<open>
  C9 (amended): the constructor stores the exploration rate it is given (\<open>0.1\<close> when
  omitted); \<^verbatim>\<open>update\<close>, when it returns, and \<^verbatim>\<open>loadState\<close> keep it;
  \<^verbatim>\<open>decayEpsilon\<close> sets it to \<^verbatim>\<open>Math.max\<close> of \<open>0.01\<close> and its product with the
  decay rate (\<open>0.99\<close> when omitted). After a decay of a finite exploration rate by a
  finite decay rate it is \<open>+Infinity\<close> or a number at or above \<open>0.01\<close>, and so it
  is after one or more decays of an exploration rate other than \<open>NaN\<close> by decay rates
  that are finite and not zero. When it is a finite number in \<open>[0, 1]\<close> and every
  decay rate is a finite number at most \<open>1\<close>, it stays a finite number in \<open>[0, 1]\<close>.
\<close>

theorem exploration_rate_bounds:
  "(\<exists>b0. constructor arms0 alpha0 gamma0 epsilon0 t0 = Inr b0 \<and>
         epsilon b0 = default_arg (Num 0.1) epsilon0) \<and>
   (update b actionId reward now = Inl TypeError \<or>
    (\<exists>b' w. update b actionId reward now = Inr (b', w) \<and> epsilon b' = epsilon b)) \<and>
   epsilon (loadState b s) = epsilon b \<and>
   epsilon (decayEpsilon b decayRate0) =
     js_max (Num 0.01) (js_mul (epsilon b) (default_arg (Num 0.99) decayRate0)) \<and>
   (epsilon b = Num e \<and> default_arg (Num 0.99) decayRate0 = Num r \<longrightarrow>
      not_below 0.01 (epsilon (decayEpsilon b decayRate0))) \<and>
   (epsilon b \<noteq> NaN \<and> rates \<noteq> [] \<and>
    list_all (\<lambda>r. nonzero (default_arg (Num 0.99) r)) rates \<longrightarrow>
      not_below 0.01 (epsilon (foldl decayEpsilon b rates))) \<and>
   (in_range 0 1 (epsilon b) \<and> list_all (\<lambda>r. not_above 1 (default_arg (Num 0.99) r)) rates \<longrightarrow>
      in_range 0 1 (epsilon (foldl decayEpsilon b rates)))"
proof (intro conjI impI)
  from constructor_result [of arms0 alpha0 gamma0 epsilon0 t0]
  show "\<exists>b0. constructor arms0 alpha0 gamma0 epsilon0 t0 = Inr b0 \<and>
         epsilon b0 = default_arg (Num 0.1) epsilon0"
    by auto
next
  from update_keeps_parameters [of b actionId reward now]
  show "update b actionId reward now = Inl TypeError \<or>
    (\<exists>b' w. update b actionId reward now = Inr (b', w) \<and> epsilon b' = epsilon b)"
    by auto
next
  show "epsilon (loadState b s) = epsilon b"
    by (simp add: loadState_def)
next
  show "epsilon (decayEpsilon b decayRate0) =
     js_max (Num 0.01) (js_mul (epsilon b) (default_arg (Num 0.99) decayRate0))"
    by (rule decayEpsilon_epsilon)
next
  assume "epsilon b = Num e \<and> default_arg (Num 0.99) decayRate0 = Num r"
  then have "epsilon b = Num e" and "default_arg (Num 0.99) decayRate0 = Num r"
    by simp_all
  then show "not_below 0.01 (epsilon (decayEpsilon b decayRate0))"
    by (rule decayEpsilon_floor_finite)
next
  assume "epsilon b \<noteq> NaN \<and> rates \<noteq> [] \<and>
    list_all (\<lambda>r. nonzero (default_arg (Num 0.99) r)) rates"
  then have "epsilon b \<noteq> NaN" and "rates \<noteq> []"
    and "list_all (\<lambda>r. nonzero (default_arg (Num 0.99) r)) rates"
    by simp_all
  then show "not_below 0.01 (epsilon (foldl decayEpsilon b rates))"
    by (rule decay_sequence_floor)
next
  assume "in_range 0 1 (epsilon b) \<and> list_all (\<lambda>r. not_above 1 (default_arg (Num 0.99) r)) rates"
  then have "in_range 0 1 (epsilon b)"
    and "list_all (\<lambda>r. not_above 1 (default_arg (Num 0.99) r)) rates"
    by simp_all
  then show "in_range 0 1 (epsilon (foldl decayEpsilon b rates))"
    by (rule decay_sequence_unit_interval)
qed

text \<open>
  The theorem at the one-arm instance: one decay by the rate \<open>0\<close>, and three decays,
  the second with the default rate and the third with a negative rate.
\<close>

theorem exploration_rate_bounds_witness:
  "epsilon (bandit_A 0.1) = Num 0.1 \<and> default_arg (Num 0.99) (Some (Num 0)) = Num 0 \<and>
   not_below 0.01 (epsilon (decayEpsilon (bandit_A 0.1) (Some (Num 0)))) \<and>
   epsilon (bandit_A 0.1) \<noteq> NaN \<and> [Some (Num 0.5), None, Some (Num (- 3))] \<noteq> [] \<and>
   list_all (\<lambda>r. nonzero (default_arg (Num 0.99) r)) [Some (Num 0.5), None, Some (Num (- 3))] \<and>
   not_below 0.01 (epsilon (foldl decayEpsilon (bandit_A 0.1) [Some (Num 0.5), None, Some (Num (- 3))])) \<and>
   in_range 0 1 (epsilon (bandit_A 0.1)) \<and>
   list_all (\<lambda>r. not_above 1 (default_arg (Num 0.99) r)) [Some (Num 0.5), None, Some (Num (- 3))] \<and>
   in_range 0 1 (epsilon (foldl decayEpsilon (bandit_A 0.1) [Some (Num 0.5), None, Some (Num (- 3))]))"
proof -
  let ?rates = "[Some (Num 0.5), None, Some (Num (- 3))]"
  have h1: "epsilon (bandit_A 0.1) = Num 0.1 \<and> default_arg (Num 0.99) (Some (Num 0)) = Num 0"
    by (simp add: bandit_A_def default_arg_def)
  have h2: "epsilon (bandit_A 0.1) \<noteq> NaN \<and> ?rates \<noteq> [] \<and>
      list_all (\<lambda>r. nonzero (default_arg (Num 0.99) r)) ?rates"
    by (simp add: bandit_A_def default_arg_def nonzero_def)
  have h3: "in_range 0 1 (epsilon (bandit_A 0.1)) \<and>
      list_all (\<lambda>r. not_above 1 (default_arg (Num 0.99) r)) ?rates"
    by (simp add: bandit_A_def default_arg_def in_range_def not_above_def)
  from exploration_rate_bounds [where b = "bandit_A 0.1" and e = "0.1" and r = "0"
      and ?decayRate0.0 = "Some (Num 0)" and rates = "?rates"] h1
  have c1: "not_below 0.01 (epsilon (decayEpsilon (bandit_A 0.1) (Some (Num 0))))"
    by blast
  from exploration_rate_bounds [where b = "bandit_A 0.1" and rates = "?rates"] h2
  have c2: "not_below 0.01 (epsilon (foldl decayEpsilon (bandit_A 0.1) ?rates))"
    by blast
  from exploration_rate_bounds [where b = "bandit_A 0.1" and rates = "?rates"] h3
  have c3: "in_range 0 1 (epsilon (foldl decayEpsilon (bandit_A 0.1) ?rates))"
    by blast
  from h1 h2 h3 c1 c2 c3 show ?thesis
    by (intro conjI) simp_all
qed

subsection \<open>selectAction on a configured instance\<close>

lemma set_object_keys: "set (object_keys al) = fst ` set al"
  by (auto simp: object_keys_def Let_def)

text \<open>
  With at least one arm and at least one key in the value-estimate dictionary,
  \<^verbatim>\<open>selectAction\<close> returns one of the configured arms in both branches, for every
  draw \<open>u2\<close> in \<open>[0, 1)\<close>.
\<close>

lemma selectAction_succeeds:
  assumes "qValues b \<noteq> []" and "arms b \<noteq> []" and "0 \<le> u2" and "u2 < 1"
  shows "\<exists>a. selectAction b u1 u2 = Inr (Some a) \<and> a \<in> set (arms b)"
proof (cases "js_lt (Num u1) (epsilon b)")
  case True
  define n where "n = length (arms b)"
  define i where "i = \<lfloor>u2 * real n\<rfloor>"
  have npos: "0 < n"
    using assms(2) by (simp add: n_def)
  have "0 \<le> u2 * real n"
    using assms(3) by simp
  then have lo: "0 \<le> i"
    by (simp add: i_def)
  have "u2 * real n < 1 * real n"
    using assms(4) npos by (intro mult_strict_right_mono) simp_all
  then have "u2 * real n < real_of_int (int n)"
    by simp
  then have hi: "i < int n"
    unfolding i_def by (simp only: floor_less_iff)
  from lo hi have "nat i < length (arms b)"
    by (simp add: n_def)
  then have "arms b ! nat i \<in> set (arms b)"
    by (rule nth_mem)
  moreover have "selectAction b u1 u2 = Inr (Some (arms b ! nat i))"
    using True lo hi by (simp add: selectAction_def array_get_def i_def n_def)
  ultimately show ?thesis
    by blast
next
  case False
  from assms(1) have "set (object_keys (qValues b)) \<noteq> {}"
    by (simp add: set_object_keys)
  then obtain k ks where ks: "object_keys (qValues b) = k # ks"
    by (cases "object_keys (qValues b)") auto
  define best where "best = foldl (better (qValues b)) k ks"
  have sel: "selectAction b u1 u2 =
      Inr (case find (\<lambda>x. id_offer x = best) (arms b) of
             Some x \<Rightarrow> Some x | None \<Rightarrow> array_get (arms b) 0)"
    using False by (simp add: selectAction_def ks best_def)
  show ?thesis
  proof (cases "find (\<lambda>x. id_offer x = best) (arms b)")
    case None
    from assms(2) have "array_get (arms b) 0 = Some (arms b ! 0)" "arms b ! 0 \<in> set (arms b)"
      by (simp_all add: array_get_def)
    with sel None show ?thesis
      by simp
  next
    case (Some a)
    then have "a \<in> set (arms b)"
      by (rule find_in_set)
    with sel Some show ?thesis
      by simp
  qed
qed

text \<open>
  The instance of the request handler, \<^verbatim>\<open>new QLearningBandit(DEFAULT_OFFERS)\<close>.
\<close>

lemma default_instance:
  "\<exists>b. constructor DEFAULT_OFFERS None None None now = Inr b \<and> arms b = DEFAULT_OFFERS \<and>
       map fst (qValues b) =
         [''discount_10'', ''discount_20'', ''pause_30'', ''pause_60'', ''extension_14'', ''swap_plan''] \<and>
       map fst (actionCounts b) = map fst (qValues b) \<and>
       alpha b = Num 0.1 \<and> gamma b = Num 0.9 \<and> epsilon b = Num 0.1"
  by (simp add: constructor_def DEFAULT_OFFERS_def default_arg_def js_set_def)

end
